theory Spec2Isabelle
  imports Main
begin

section \<open>JavaScript values, flat objects and array slicing\<close>

text \<open>
  The signals that BugTrace passes around are flat JavaScript objects whose
  properties hold strings, numbers or \<open>undefined\<close>. An object is a finite map from
  property names to values; the spread \<open>{...a, ...b}\<close> is \<open>a ++ b\<close>, where the
  right-hand side wins. Numbers that occur in the modelled paths (tab ids, HTTP
  status codes) are integers.
\<close>

datatype jsval = JUndefined | JNum int | JStr string

type_synonym jsobj = "string \<rightharpoonup> jsval"

text \<open>
  \<open>Array.prototype.slice(start, end)\<close>: a negative index counts from the end and
  both indices are clamped to the array; \<open>end\<close> defaults to the length.
\<close>

definition relative_index :: "int \<Rightarrow> nat \<Rightarrow> nat" where
  "relative_index i len =
     (if i < 0 then nat (max (int len + i) 0) else min (nat i) len)"

definition array_slice :: "int \<Rightarrow> int option \<Rightarrow> 'a list \<Rightarrow> 'a list" where
  "array_slice start end_opt xs =
     (let len = length xs;
          k = relative_index start len;
          final = (case end_opt of None \<Rightarrow> len | Some e \<Rightarrow> relative_index e len)
      in take (final - k) (drop k xs))"

section \<open>background.js: the aggregator\<close>

text \<open>
  \<open>sender.tab\<close> may be absent, and so may its \<open>id\<close> and \<open>url\<close>; the optional
  chaining \<open>sender.tab?.id\<close> then yields \<open>undefined\<close>.
\<close>

record tab =
  tab_id :: "int option"
  tab_url :: "string option"

record message =
  msg_type :: string
  msg_error :: jsobj

record change_info =
  status :: "string option"

text \<open>
  What the service worker sends out: \<open>chrome.runtime.sendMessage\<close> of an
  \<open>ERROR_UPDATE\<close> carrying the whole buffer (its rejection is swallowed by the
  \<open>.catch\<close>), and \<open>sendResponse\<close> answering \<open>GET_ERRORS\<close>.
\<close>

datatype effect = ERROR_UPDATE "jsobj list" | Response "jsobj list"

definition sender_tab_id :: "tab option \<Rightarrow> jsval" where
  "sender_tab_id t =
     (case t of None \<Rightarrow> JUndefined
      | Some tb \<Rightarrow> (case tab_id tb of None \<Rightarrow> JUndefined | Some n \<Rightarrow> JNum n))"

definition sender_tab_url :: "tab option \<Rightarrow> jsval" where
  "sender_tab_url t =
     (case t of None \<Rightarrow> JUndefined
      | Some tb \<Rightarrow> (case tab_url tb of None \<Rightarrow> JUndefined | Some u \<Rightarrow> JStr u))"

text \<open>
  The object pushed on \<open>ERROR_CAPTURED\<close>: the captured error, with \<open>tabId\<close>,
  \<open>url\<close> and \<open>timestamp\<close> overwritten. \<open>now\<close> is the value of
  \<open>new Date().toISOString()\<close> at the time of the call.
\<close>

definition stamp :: "string \<Rightarrow> tab option \<Rightarrow> jsobj \<Rightarrow> jsobj" where
  "stamp now t e =
     e ++ [''tabId'' \<mapsto> sender_tab_id t,
           ''url'' \<mapsto> sender_tab_url t,
           ''timestamp'' \<mapsto> JStr now]"

text \<open>Lines 10 to 20: push, then keep the last 200.\<close>

definition accept :: "jsobj \<Rightarrow> jsobj list \<Rightarrow> jsobj list" where
  "accept e globalErrors =
     (let pushed = globalErrors @ [e]
      in if length pushed > 200 then array_slice (- 200) None pushed else pushed)"

text \<open>
  The \<open>chrome.runtime.onMessage\<close> listener: the new buffer and what was sent, in
  order.
\<close>

definition onMessage ::
  "string \<Rightarrow> message \<Rightarrow> tab option \<Rightarrow> jsobj list \<Rightarrow> jsobj list \<times> effect list" where
  "onMessage now m t globalErrors =
     (let (g1, out1) =
            (if msg_type m = ''ERROR_CAPTURED''
             then (let g = accept (stamp now t (msg_error m)) globalErrors
                   in (g, [ERROR_UPDATE g]))
             else (globalErrors, []));
          out2 = (if msg_type m = ''GET_ERRORS'' then [Response g1] else [])
      in (g1, out1 @ out2))"

text \<open>
  The \<open>chrome.tabs.onUpdated\<close> listener. \<open>error.tabId !== tabId\<close> is strict
  inequality with a number: an entry whose \<open>tabId\<close> is missing or \<open>undefined\<close> is
  kept.
\<close>

definition onUpdated ::
  "int \<Rightarrow> change_info \<Rightarrow> jsobj list \<Rightarrow> jsobj list \<times> effect list" where
  "onUpdated tabId changeInfo globalErrors =
     (if status changeInfo = Some ''loading''
      then (filter (\<lambda>error. error ''tabId'' \<noteq> Some (JNum tabId)) globalErrors, [])
      else (globalErrors, []))"

text \<open>The events the service worker reacts to, and a run from the empty buffer.\<close>

datatype event =
    Message string message "tab option"
  | TabUpdated int change_info

fun step :: "event \<Rightarrow> jsobj list \<Rightarrow> jsobj list \<times> effect list" where
  "step (Message now m t) g = onMessage now m t g"
| "step (TabUpdated tabId ci) g = onUpdated tabId ci g"

fun run :: "event list \<Rightarrow> jsobj list \<Rightarrow> jsobj list \<times> effect list" where
  "run [] g = (g, [])"
| "run (ev # evs) g =
     (let (g1, out1) = step ev g; (g2, out2) = run evs g1 in (g2, out1 @ out2))"

text \<open>A capture message as the content script sends it.\<close>

definition captured :: "jsobj \<Rightarrow> message" where
  "captured e = \<lparr>msg_type = ''ERROR_CAPTURED'', msg_error = e\<rparr>"

text \<open>
  A run of capture messages only: each arrival is the clock reading, the error
  and the sending tab.
\<close>

fun accept_all :: "(string \<times> jsobj \<times> tab option) list \<Rightarrow> jsobj list \<Rightarrow> jsobj list" where
  "accept_all [] g = g"
| "accept_all ((now, e, t) # rest) g =
     accept_all rest (fst (onMessage now (captured e) t g))"

section \<open>Strings and regular expressions\<close>

text \<open>
  A string is a list of 8-bit characters, standing for the Latin-1 range of
  JavaScript's UTF-16 code units; \<open>length\<close> is the \<open>.length\<close> of the source.
  Character tests work on the character's code.
\<close>

definition code :: "char \<Rightarrow> nat" where
  "code c = of_char c"

definition is_space :: "char \<Rightarrow> bool" where
  \<comment> \<open>\<open>\s\<close>, and what \<open>trim\<close> removes: tab, LF, VT, FF, CR, space, NBSP\<close>
  "is_space c = (code c \<in> {9, 10, 11, 12, 13, 32, 160})"

definition is_digit :: "char \<Rightarrow> bool" where
  "is_digit c = (48 \<le> code c \<and> code c \<le> 57)"

definition is_word :: "char \<Rightarrow> bool" where
  \<comment> \<open>\<open>\w\<close>: letters, digits and the underscore\<close>
  "is_word c = ((65 \<le> code c \<and> code c \<le> 90) \<or> (97 \<le> code c \<and> code c \<le> 122)
                \<or> is_digit c \<or> code c = 95)"

definition is_line_end :: "char \<Rightarrow> bool" where
  "is_line_end c = (code c = 10 \<or> code c = 13)"

definition lower_code :: "nat \<Rightarrow> nat" where
  "lower_code n = (if 65 \<le> n \<and> n \<le> 90 then n + 32 else n)"

text \<open>
  The character classes that the patterns of the source use. \<open>LitI\<close> is a literal
  under the \<open>i\<close> flag.
\<close>

datatype cls =
    Lit char
  | LitI char
  | Dot
  | Space
  | NotSpace
  | Digit
  | Word
  | OneOf "char list"
  | NoneOf "char list"

fun cls_match :: "cls \<Rightarrow> char \<Rightarrow> bool" where
  "cls_match (Lit c) x = (x = c)"
| "cls_match (LitI c) x = (lower_code (code x) = lower_code (code c))"
| "cls_match Dot x = (\<not> is_line_end x)"
| "cls_match Space x = is_space x"
| "cls_match NotSpace x = (\<not> is_space x)"
| "cls_match Digit x = is_digit x"
| "cls_match Word x = is_word x"
| "cls_match (OneOf cs) x = (x \<in> set cs)"
| "cls_match (NoneOf cs) x = (x \<notin> set cs)"

text \<open>
  Every pattern of the source is a sequence of character classes, each taken
  once or under one of the greedy quantifiers \<open>?\<close>, \<open>*\<close>, \<open>+\<close>.
\<close>

datatype quant = One | Opt | Star | Plus

type_synonym pattern = "(cls \<times> quant) list"

definition lit :: "string \<Rightarrow> pattern" where
  "lit s = map (\<lambda>c. (Lit c, One)) s"

definition lit_i :: "string \<Rightarrow> pattern" where
  "lit_i s = map (\<lambda>c. (LitI c, One)) s"

text \<open>
  Matching at the start of a string, by backtracking in the order of the
  ECMAScript matcher: a greedy quantifier first takes as many characters as it can
  and gives them back one by one. The result is what is left of the string after
  the match.
\<close>

fun rmatch :: "pattern \<Rightarrow> string \<Rightarrow> string option" where
  "rmatch [] s = Some s"
| "rmatch ((c, One) # ps) [] = None"
| "rmatch ((c, One) # ps) (x # xs) = (if cls_match c x then rmatch ps xs else None)"
| "rmatch ((c, Opt) # ps) [] = rmatch ps []"
| "rmatch ((c, Opt) # ps) (x # xs) =
     (if cls_match c x
      then (case rmatch ps xs of Some r \<Rightarrow> Some r | None \<Rightarrow> rmatch ps (x # xs))
      else rmatch ps (x # xs))"
| "rmatch ((c, Star) # ps) [] = rmatch ps []"
| "rmatch ((c, Star) # ps) (x # xs) =
     (if cls_match c x
      then (case rmatch ((c, Star) # ps) xs of Some r \<Rightarrow> Some r | None \<Rightarrow> rmatch ps (x # xs))
      else rmatch ps (x # xs))"
| "rmatch ((c, Plus) # ps) [] = None"
| "rmatch ((c, Plus) # ps) (x # xs) =
     (if cls_match c x then rmatch ((c, Star) # ps) xs else None)"

text \<open>
  \<open>s.replace(/p/g, '')\<close>: the matches are found from left to right, each search
  starting where the last match ended; after an empty match the search moves on
  by one character.
\<close>

fun replace_all :: "pattern \<Rightarrow> string \<Rightarrow> string" where
  "replace_all p [] = []"
| "replace_all p (x # xs) =
     (case rmatch p (x # xs) of
        None \<Rightarrow> x # replace_all p xs
      | Some r \<Rightarrow> if length r < length (x # xs) then replace_all p r
                  else x # replace_all p xs)"



text \<open>\<open>String.prototype.trim\<close>.\<close>

definition trim :: "string \<Rightarrow> string" where
  "trim s = rev (dropWhile is_space (rev (dropWhile is_space s)))"

text \<open>
  \<open>s.replace(t, '')\<close> with a string \<open>t\<close>: the first occurrence of \<open>t\<close> is
  removed.
\<close>

fun replace_first :: "string \<Rightarrow> string \<Rightarrow> string" where
  "replace_first t [] = []"
| "replace_first t (x # xs) =
     (if take (length t) (x # xs) = t then drop (length t) (x # xs)
      else x # replace_first t xs)"

text \<open>\<open>Array.prototype.join\<close> on strings.\<close>

fun join :: "string \<Rightarrow> string list \<Rightarrow> string" where
  "join sep [] = []"
| "join sep [a] = a"
| "join sep (a # b # rest) = a @ sep @ join sep (b # rest)"

text \<open>A natural number in decimal, as template literals print it.\<close>

function decimal :: "nat \<Rightarrow> string" where
  "decimal n =
     (if n < 10 then [char_of (48 + n)]
      else decimal (n div 10) @ [char_of (48 + n mod 10)])"
  by pat_completeness auto
termination
  by (relation "measure id") auto

declare decimal.simps [simp del]

section \<open>content-script.js: the capture agent\<close>

text \<open>
  The exceptions of the modelled paths, each with its message.
\<close>

datatype exn = SyntaxError string | TypeError string | Error string

fun exn_message :: "exn \<Rightarrow> string" where
  "exn_message (SyntaxError m) = m"
| "exn_message (TypeError m) = m"
| "exn_message (Error m) = m"

text \<open>
  The item \<open>bugtrace-errors\<close> of the page's \<open>localStorage\<close>, as
  \<open>stored ? JSON.parse(stored) : []\<close> sees it. The page owns its storage, so the
  item can hold any text: \<open>NoItem\<close> is \<open>null\<close> or the empty string;
  \<open>BadJson m\<close> is a text that \<open>JSON.parse\<close> rejects, \<open>m\<close> being the message of
  the engine's \<open>SyntaxError\<close> for that text; \<open>NonArray m\<close> is a text that parses to
  a value without an \<open>unshift\<close> method (an object, a number, a string, a boolean,
  \<open>null\<close>), \<open>m\<close> being the message of the \<open>TypeError\<close> that the call of
  \<open>unshift\<close> on it raises; \<open>Entries xs\<close> parses to the array \<open>xs\<close>. The
  storage itself is taken to be accessible and to have room.
\<close>

datatype stored = NoItem | BadJson string | NonArray string | Entries "jsobj list"

text \<open>
  \<open>JSON.parse(JSON.stringify(o))\<close> on a flat object: a property whose value is
  \<open>undefined\<close> is left out.
\<close>

definition json :: "jsobj \<Rightarrow> jsobj" where
  "json obj = (\<lambda>k. case obj k of Some JUndefined \<Rightarrow> None | v \<Rightarrow> v)"

text \<open>
  What a capture reads from its surroundings. \<open>fresh_id n\<close> and \<open>now_iso n\<close> are
  the values of \<open>Date.now() + '-' + Math.random()...\<close> and of
  \<open>new Date().toISOString()\<close> during the \<open>n\<close>-th capture.
\<close>

record env =
  fresh_id :: "nat \<Rightarrow> string"
  now_iso :: "nat \<Rightarrow> string"
  href :: string
  userAgent :: string

text \<open>
  The state that the agent changes: its counter, the errors it has handed to
  \<open>chrome.runtime.sendMessage\<close> as \<open>ERROR_CAPTURED\<close> (oldest first), the storage
  item, and the calls that have reached the page's original console methods.
\<close>

record page =
  errorCount :: nat
  sent :: "jsobj list"
  storage :: stored
  console :: "(string \<times> string list) list"

definition new_error :: "env \<Rightarrow> nat \<Rightarrow> string \<Rightarrow> string \<Rightarrow> string \<Rightarrow> jsobj \<Rightarrow> jsobj" where
  "new_error ev n type severity msg details =
     [''id'' \<mapsto> JStr (fresh_id ev n),
      ''timestamp'' \<mapsto> JStr (now_iso ev n),
      ''type'' \<mapsto> JStr type,
      ''severity'' \<mapsto> JStr severity,
      ''message'' \<mapsto> JStr msg,
      ''url'' \<mapsto> JStr (href ev),
      ''userAgent'' \<mapsto> JStr (userAgent ev)] ++ details"

text \<open>
  Lines 274 to 284: \<open>unshift\<close>, \<open>splice(50)\<close> when there are more than 50, and
  \<open>setItem\<close> of the JSON text.
\<close>

definition mirror :: "jsobj \<Rightarrow> jsobj list \<Rightarrow> stored" where
  "mirror error errors =
     (let unshifted = error # errors;
          kept = (if length unshifted > 50 then take 50 unshifted else unshifted)
      in Entries (map json kept))"

text \<open>
  \<open>captureError\<close>. The message is sent first (a rejection of the send is handled
  by its \<open>.catch\<close>); then the storage item is read, parsed and written back.
  Nothing in the method catches a failure of the parse or of \<open>unshift\<close>.
\<close>

definition captureError ::
  "env \<Rightarrow> string \<Rightarrow> string \<Rightarrow> string \<Rightarrow> jsobj \<Rightarrow> page \<Rightarrow> (exn + unit) \<times> page" where
  "captureError ev type severity msg details p =
     (let n = Suc (errorCount p);
          error = new_error ev n type severity msg details;
          p1 = p\<lparr>errorCount := n, sent := sent p @ [error]\<rparr>
      in case storage p of
           NoItem \<Rightarrow> (Inr (), p1\<lparr>storage := mirror error []\<rparr>)
         | BadJson m \<Rightarrow> (Inl (SyntaxError m), p1)
         | NonArray m \<Rightarrow> (Inl (TypeError m), p1)
         | Entries errors \<Rightarrow> (Inr (), p1\<lparr>storage := mirror error errors\<rparr>))"

text \<open>
  The wrappers of \<open>console.error\<close> and \<open>console.warn\<close>: the original method is
  called with the same arguments, then the capture runs. The arguments are taken
  as already converted to strings.
\<close>

definition console_error :: "env \<Rightarrow> string list \<Rightarrow> page \<Rightarrow> (exn + unit) \<times> page" where
  "console_error ev args p =
     captureError ev ''console'' ''error'' (join '' '' args) Map.empty
       (p\<lparr>console := console p @ [(''error'', args)]\<rparr>)"

definition console_warn :: "env \<Rightarrow> string list \<Rightarrow> page \<Rightarrow> (exn + unit) \<times> page" where
  "console_warn ev args p =
     captureError ev ''console'' ''warning'' (join '' '' args) Map.empty
       (p\<lparr>console := console p @ [(''warn'', args)]\<rparr>)"

subsection \<open>Network interception\<close>

record response =
  ok :: bool
  http_status :: nat
  statusText :: string

text \<open>
  A call of \<open>fetch\<close>: \<open>req_url\<close> is the value of
  \<open>typeof args[0] === 'string' ? args[0] : args[0]?.url\<close> and \<open>req_method\<close> that of
  \<open>args[1]?.method\<close>.
\<close>

record request =
  req_url :: jsval
  req_method :: "string option"

definition method_or_get :: "string option \<Rightarrow> string" where
  "method_or_get m = (case m of None \<Rightarrow> ''GET'' | Some s \<Rightarrow> if s = [] then ''GET'' else s)"

text \<open>
  The \<open>catch\<close> block of the \<open>fetch\<close> wrapper: capture, then rethrow. A throw of
  the capture itself takes the place of the rethrown error.
\<close>

definition fetch_catch :: "env \<Rightarrow> request \<Rightarrow> exn \<Rightarrow> page \<Rightarrow> (exn + response) \<times> page" where
  "fetch_catch ev rq error p =
     (case captureError ev ''network'' ''error''
             (''Network request failed: '' @ exn_message error)
             [''url'' \<mapsto> req_url rq,
              ''method'' \<mapsto> JStr (method_or_get (req_method rq)),
              ''error'' \<mapsto> JStr (exn_message error)] p of
        (Inl thrown, p1) \<Rightarrow> (Inl thrown, p1)
      | (Inr _, p1) \<Rightarrow> (Inl error, p1))"

text \<open>
  The wrapped \<open>window.fetch\<close>. The original \<open>fetch\<close> either resolves with a
  response or rejects; the result is what the wrapper's promise settles with
  (\<open>Inl\<close>: it rejects).
\<close>

definition window_fetch ::
  "env \<Rightarrow> request \<Rightarrow> exn + response \<Rightarrow> page \<Rightarrow> (exn + response) \<times> page" where
  "window_fetch ev rq original p =
     (case original of
        Inl error \<Rightarrow> fetch_catch ev rq error p
      | Inr r \<Rightarrow>
          if \<not> ok r \<and> http_status r \<ge> 400
          then (case captureError ev ''network''
                       (if http_status r \<ge> 500 then ''error'' else ''warning'')
                       (''HTTP '' @ decimal (http_status r) @ '': '' @ statusText r)
                       [''url'' \<mapsto> req_url rq,
                        ''method'' \<mapsto> JStr (method_or_get (req_method rq)),
                        ''status'' \<mapsto> JNum (int (http_status r)),
                        ''statusText'' \<mapsto> JStr (statusText r)] p of
                  (Inl thrown, p1) \<Rightarrow> fetch_catch ev rq thrown p1
                | (Inr _, p1) \<Rightarrow> (Inr r, p1))
          else (Inr r, p))"

text \<open>
  The \<open>onreadystatechange\<close> handler that the \<open>send\<close> wrapper installs on an
  \<open>XMLHttpRequest\<close>. A request that fails below HTTP (no connection, name not
  resolved, connection refused) reaches \<open>readyState\<close> 4 with \<open>status\<close> 0. The
  page's own handler, which the installed one calls afterwards, is not part of
  the state.
\<close>

record xhr =
  xhr_method :: jsval
  xhr_url :: jsval
  readyState :: nat
  xhr_status :: nat
  xhr_statusText :: string

definition onreadystatechange :: "env \<Rightarrow> xhr \<Rightarrow> page \<Rightarrow> (exn + unit) \<times> page" where
  "onreadystatechange ev x p =
     (if readyState x = 4 \<and> xhr_status x \<ge> 400
      then captureError ev ''network''
             (if xhr_status x \<ge> 500 then ''error'' else ''warning'')
             (''HTTP '' @ decimal (xhr_status x) @ '': '' @ xhr_statusText x)
             [''url'' \<mapsto> xhr_url x,
              ''method'' \<mapsto> xhr_method x,
              ''status'' \<mapsto> JNum (int (xhr_status x)),
              ''statusText'' \<mapsto> JStr (xhr_statusText x)] p
      else (Inr (), p))"

subsection \<open>The scan of the page's scripts\<close>

record detector =
  pattern :: pattern
  det_type :: string
  det_severity :: string
  det_description :: string


definition patterns :: "detector list" where
  "patterns =
     [\<lparr>pattern = lit_i ''eval'' @ [(Space, Star)] @ lit_i ''('',
       det_type = ''Code Injection'', det_severity = ''HIGH'',
       det_description = ''Use of eval() detected - potential code injection risk''\<rparr>,
      \<lparr>pattern = lit_i ''innerHTML'' @ [(Space, Star)] @ lit_i ''='' @ [(Dot, Star)] @ lit_i ''+'',
       det_type = ''XSS'', det_severity = ''HIGH'',
       det_description = ''Dynamic innerHTML assignment - potential XSS risk''\<rparr>,
      \<lparr>pattern = lit_i ''document.write('',
       det_type = ''XSS'', det_severity = ''MEDIUM'',
       det_description = ''document.write() usage detected - potential XSS risk''\<rparr>]"







subsection \<open>Runs of captures\<close>

text \<open>
  A run of calls of \<open>captureError\<close>, each given by its type, severity, message
  and details, and the error objects that such a run builds when the counter
  stands at \<open>n\<close>.
\<close>

fun capture_all :: "env \<Rightarrow> (string \<times> string \<times> string \<times> jsobj) list \<Rightarrow> page \<Rightarrow> page" where
  "capture_all ev [] p = p"
| "capture_all ev ((type, severity, msg, details) # rest) p =
     capture_all ev rest (snd (captureError ev type severity msg details p))"

fun signals :: "env \<Rightarrow> nat \<Rightarrow> (string \<times> string \<times> string \<times> jsobj) list \<Rightarrow> jsobj list" where
  "signals ev n [] = []"
| "signals ev n ((type, severity, msg, details) # rest) =
     new_error ev (Suc n) type severity msg details # signals ev (Suc n) rest"



section \<open>background.js: scanForVulnerabilities\<close>






section \<open>SuggestionService: the search query\<close>

text \<open>The expressions of \<open>extractSearchQuery\<close>, in the order of their use.\<close>

definition re_location :: pattern where
  \<comment> \<open>\<open>/at .+:\d+:\d+/g\<close>\<close>
  "re_location = lit ''at '' @ [(Dot, Plus)] @ lit '':'' @ [(Digit, Plus)] @ lit '':''
                 @ [(Digit, Plus)]"

definition re_parens :: pattern where
  \<comment> \<open>\<open>/\(.*\)/g\<close>\<close>
  "re_parens = lit ''('' @ [(Dot, Star)] @ lit '')''"

definition re_url :: pattern where
  \<comment> \<open>\<open>/https?:\/\/[^\s]+/g\<close>\<close>
  "re_url = lit ''http'' @ [(Lit CHR ''s'', Opt)] @ lit ''://'' @ [(NotSpace, Plus)]"

definition re_digits :: pattern where
  \<comment> \<open>\<open>/\d+/g\<close>\<close>
  "re_digits = [(Digit, Plus)]"

definition re_quotes :: pattern where
  \<comment> \<open>the single and the double quote\<close>
  "re_quotes = [(OneOf [CHR 0x27, CHR 0x22], One)]"

definition re_word_error :: pattern where
  \<comment> \<open>the first alternative of \<open>/^(\w+Error|Error)/\<close>\<close>
  "re_word_error = [(Word, Plus)] @ lit ''Error''"

definition re_error :: pattern where
  \<comment> \<open>its second alternative\<close>
  "re_error = lit ''Error''"

text \<open>
  \<open>query.match(/^(\w+Error|Error)/)\<close>: the text matched at the start of the
  query, the first alternative tried before the second.
\<close>

definition matched :: "pattern \<Rightarrow> string \<Rightarrow> string option" where
  "matched p s =
     (case rmatch p s of None \<Rightarrow> None | Some r \<Rightarrow> Some (take (length s - length r) s))"

definition errorTypeMatch :: "string \<Rightarrow> string option" where
  "errorTypeMatch query =
     (case matched re_word_error query of
        Some t \<Rightarrow> Some t
      | None \<Rightarrow> matched re_error query)"

text \<open>The chain of replacements of lines 53 to 58, and with its \<open>trim\<close>.\<close>

definition strip :: "string \<Rightarrow> string" where
  "strip msg =
     replace_all re_quotes (replace_all re_digits (replace_all re_url
       (replace_all re_parens (replace_all re_location msg))))"

definition clean :: "string \<Rightarrow> string" where
  "clean msg = trim (strip msg)"

text \<open>Lines 62 to 66.\<close>

definition promote :: "string \<Rightarrow> string" where
  "promote query =
     (case errorTypeMatch query of
        None \<Rightarrow> query
      | Some errorType \<Rightarrow> errorType @ '' '' @ trim (replace_first errorType query))"

text \<open>Lines 69 to 71.\<close>

definition limit :: "string \<Rightarrow> string" where
  "limit query = (if length query > 100 then trim (take 100 query) else query)"

text \<open>
  The two fields of an \<open>ErrorEntry\<close> that the extraction reads, and the values
  that the interface declares for \<open>type\<close>.
\<close>

record error_entry =
  err_message :: string
  err_type :: string

definition kinds :: "string list" where
  "kinds = [''console'', ''network'', ''runtime'', ''security'', ''performance'', ''react'']"

definition extractSearchQuery :: "error_entry \<Rightarrow> string" where
  "extractSearchQuery error =
     (let query = limit (promote (clean (err_message error)))
      in if query = [] then err_type error else query)"

text \<open>
  A text without digits, quotes, opening parentheses and slashes: each of the
  five expressions of the chain needs one of these characters.
\<close>

definition plain :: "string \<Rightarrow> bool" where
  "plain s = (\<forall>x \<in> set s. \<not> is_digit x \<and> x \<notin> set [CHR 0x27, CHR 0x22, CHR ''('', CHR ''/''])"

section \<open>SuggestionService: the sources and their fan-out\<close>

datatype source = stackoverflow | github | mdn | copilot

text \<open>
  Numbers that are only copied (scores, votes) are of an arbitrary type \<open>'n\<close>.
\<close>

record 'n suggestion =
  sug_id :: string
  sug_source :: source
  sug_title :: string
  sug_url :: "string option"
  sug_excerpt :: string
  sug_score :: "'n option"
  sug_tags :: "string list option"
  sug_isAccepted :: "bool option"
  sug_votes :: "'n option"

record 'n so_item =
  question_id :: nat
  so_title :: string
  so_link :: string
  body_markdown :: "string option"
  so_score :: 'n
  so_tags :: "string list option"
  is_answered :: bool

record 'n gh_item =
  gh_id :: nat
  gh_title :: string
  html_url :: string
  gh_body :: "string option"
  gh_score :: 'n
  gh_labels :: "string list option"
  reactions_total_count :: "'n option"

text \<open>
  What a request to a search endpoint comes to. \<open>Rejects\<close>: \<open>fetch\<close> rejects.
  \<open>Replies ok status body\<close>: a response with its \<open>ok\<close> flag and status; its body is
  \<open>Unreadable\<close> when \<open>response.json()\<close> rejects or the value has no usable
  \<open>items\<close>, and \<open>Data items\<close> otherwise, \<open>items\<close> being absent or a list.
\<close>

datatype 'i body = Unreadable | Data "'i list option"

datatype 'i reply = Rejects exn | Replies bool nat "'i body"

text \<open>
  The two endpoints, as functions of the query and of the page size that the
  request asks for, and the DOM-based \<open>decodeHtml\<close>.
\<close>

record 'n net =
  so_api :: "string \<Rightarrow> int \<Rightarrow> 'n so_item reply"
  gh_api :: "string \<Rightarrow> int \<Rightarrow> 'n gh_item reply"
  decodeHtml :: "string \<Rightarrow> string"

definition items_or_empty :: "'i list option \<Rightarrow> 'i list" where
  "items_or_empty items = (case items of None \<Rightarrow> [] | Some xs \<Rightarrow> xs)"

definition so_suggestion :: "(string \<Rightarrow> string) \<Rightarrow> 'n so_item \<Rightarrow> 'n suggestion" where
  "so_suggestion decode item =
     \<lparr>sug_id = ''so-'' @ decimal (question_id item),
      sug_source = stackoverflow,
      sug_title = decode (so_title item),
      sug_url = Some (so_link item),
      sug_excerpt =
        take 200 (decode (case body_markdown item of None \<Rightarrow> [] | Some b \<Rightarrow> b)) @ ''...'',
      sug_score = Some (so_score item),
      sug_tags = Some (items_or_empty (so_tags item)),
      sug_isAccepted = Some (is_answered item),
      sug_votes = Some (so_score item)\<rparr>"

definition searchStackOverflow ::
  "'n net \<Rightarrow> string \<Rightarrow> int \<Rightarrow> exn + 'n suggestion list" where
  "searchStackOverflow nt query maxResults =
     (case so_api nt query (min maxResults 20) of
        Rejects e \<Rightarrow> Inl e
      | Replies ok_flag st b \<Rightarrow>
          if \<not> ok_flag then Inl (Error (''StackOverflow API error: '' @ decimal st))
          else (case b of
                  Unreadable \<Rightarrow> Inl (SyntaxError ''Unexpected token'')
                | Data items \<Rightarrow>
                    Inr (map (so_suggestion (decodeHtml nt)) (items_or_empty items))))"

definition gh_suggestion :: "('n::zero) gh_item \<Rightarrow> 'n suggestion" where
  "gh_suggestion item =
     \<lparr>sug_id = ''gh-'' @ decimal (gh_id item),
      sug_source = github,
      sug_title = gh_title item,
      sug_url = Some (html_url item),
      sug_excerpt = take 200 (case gh_body item of None \<Rightarrow> [] | Some b \<Rightarrow> b) @ ''...'',
      sug_score = Some (gh_score item),
      sug_tags = Some (items_or_empty (gh_labels item)),
      sug_isAccepted = None,
      sug_votes = Some (case reactions_total_count item of None \<Rightarrow> 0 | Some n \<Rightarrow> n)\<rparr>"

definition searchGitHubIssues ::
  "('n::zero) net \<Rightarrow> string \<Rightarrow> int \<Rightarrow> exn + 'n suggestion list" where
  "searchGitHubIssues nt query maxResults =
     (case gh_api nt (query @ '' type:issue state:closed'') (min maxResults 20) of
        Rejects e \<Rightarrow> Inl e
      | Replies ok_flag st b \<Rightarrow>
          if \<not> ok_flag then Inl (Error (''GitHub API error: '' @ decimal st))
          else (case b of
                  Unreadable \<Rightarrow> Inl (SyntaxError ''Unexpected token'')
                | Data items \<Rightarrow> Inr (map gh_suggestion (items_or_empty items))))"

text \<open>
  \<open>searchMDN\<close>: a fixed table, looked up by a case-insensitive substring test.
  \<open>toLowerCase\<close> is modelled on the ASCII letters, which is all that the keys of
  the table have.
\<close>

definition toLowerCase :: "string \<Rightarrow> string" where
  "toLowerCase s = map (\<lambda>c. char_of (lower_code (code c))) s"

fun includes_str :: "string \<Rightarrow> string \<Rightarrow> bool" where
  "includes_str [] t = (t = [])"
| "includes_str (x # xs) t = (take (length t) (x # xs) = t \<or> includes_str xs t)"

definition mdnMappings :: "(string \<times> string \<times> string \<times> string) list" where
  "mdnMappings =
     [(''TypeError'', ''TypeError - JavaScript | MDN'',
       ''https://developer.mozilla.org/en-US/docs/Web/JavaScript/Reference/Global_Objects/TypeError'',
       ''The TypeError object represents an error when an operation could not be performed, typically when a value is not of the expected type.''),
      (''ReferenceError'', ''ReferenceError - JavaScript | MDN'',
       ''https://developer.mozilla.org/en-US/docs/Web/JavaScript/Reference/Global_Objects/ReferenceError'',
       ''The ReferenceError object represents an error when a non-existent variable is referenced.''),
      (''SyntaxError'', ''SyntaxError - JavaScript | MDN'',
       ''https://developer.mozilla.org/en-US/docs/Web/JavaScript/Reference/Global_Objects/SyntaxError'',
       ''The SyntaxError object represents an error when trying to interpret syntactically invalid code.''),
      (''RangeError'', ''RangeError - JavaScript | MDN'',
       ''https://developer.mozilla.org/en-US/docs/Web/JavaScript/Reference/Global_Objects/RangeError'',
       ''The RangeError object indicates an error when a value is not in the set or range of allowed values.'')]"

definition mdn_suggestion :: "string \<times> string \<times> string \<times> string \<Rightarrow> 'n suggestion" where
  "mdn_suggestion entry =
     (case entry of (errorType, title, url, excerpt) \<Rightarrow>
        \<lparr>sug_id = ''mdn-'' @ errorType, sug_source = mdn, sug_title = title,
         sug_url = Some url, sug_excerpt = excerpt, sug_score = None, sug_tags = None,
         sug_isAccepted = None, sug_votes = None\<rparr>)"

text \<open>The loop of lines 171 to 183, with its \<open>break\<close>.\<close>

fun mdn_loop ::
  "string \<Rightarrow> int \<Rightarrow> (string \<times> string \<times> string \<times> string) list \<Rightarrow> 'n suggestion list
     \<Rightarrow> 'n suggestion list" where
  "mdn_loop query maxResults [] suggestions = suggestions"
| "mdn_loop query maxResults (entry # rest) suggestions =
     (if includes_str (toLowerCase query) (toLowerCase (fst entry))
      then (let pushed = suggestions @ [mdn_suggestion entry]
            in if int (length pushed) \<ge> maxResults then pushed
               else mdn_loop query maxResults rest pushed)
      else mdn_loop query maxResults rest suggestions)"

definition searchMDN :: "string \<Rightarrow> int \<Rightarrow> exn + 'n suggestion list" where
  "searchMDN query maxResults = Inr (mdn_loop query maxResults mdnMappings [])"

text \<open>
  The options of a call: each may be absent. \<open>options.sources || [...]\<close> and
  \<open>options.maxResults || 10\<close>: an array is never falsy, the number \<open>0\<close> is.
\<close>

record options =
  sources :: "source list option"
  maxResults :: "int option"

definition sources_or_default :: "options \<Rightarrow> source list" where
  "sources_or_default opts =
     (case sources opts of None \<Rightarrow> [stackoverflow, github] | Some s \<Rightarrow> s)"

definition maxResults_or_default :: "options \<Rightarrow> int" where
  "maxResults_or_default opts =
     (case maxResults opts of None \<Rightarrow> 10 | Some m \<Rightarrow> if m = 0 then 10 else m)"

text \<open>
  One block of the fan-out: \<open>if (sources.includes(s)) { try { push(...await search) }
  catch { console.error } }\<close>.
\<close>

definition try_source ::
  "bool \<Rightarrow> exn + 'a list \<Rightarrow> 'a list \<Rightarrow> 'a list" where
  "try_source selected outcome suggestions =
     (if selected
      then (case outcome of Inr results \<Rightarrow> suggestions @ results | Inl e \<Rightarrow> suggestions)
      else suggestions)"

text \<open>The array \<open>suggestions\<close> as it stands before the final \<open>slice\<close>.\<close>

definition gathered :: "('n::zero) net \<Rightarrow> error_entry \<Rightarrow> options \<Rightarrow> 'n suggestion list" where
  "gathered nt error opts =
     (let query = extractSearchQuery error;
          srcs = sources_or_default opts;
          m = maxResults_or_default opts;
          s1 = try_source (stackoverflow \<in> set srcs) (searchStackOverflow nt query m) [];
          s2 = try_source (github \<in> set srcs) (searchGitHubIssues nt query m) s1
      in try_source (mdn \<in> set srcs) (searchMDN query m) s2)"

text \<open>
  \<open>getSuggestions\<close>; \<open>Inl\<close> would be a rejection of its promise.
\<close>

definition getSuggestions ::
  "('n::zero) net \<Rightarrow> error_entry \<Rightarrow> options \<Rightarrow> exn + 'n suggestion list" where
  "getSuggestions nt error opts =
     Inr (array_slice 0 (Some (maxResults_or_default opts)) (gathered nt error opts))"

section \<open>The buffer bound and its eviction order\<close>

lemma array_slice_last:
  assumes "0 < n"
  shows "array_slice (- int n) None xs = drop (length xs - n) xs"
proof -
  have "nat (max (int (length xs) - int n) 0) = length xs - n" by linarith
  with assms show ?thesis
    by (simp add: array_slice_def relative_index_def Let_def)
qed

lemma accept_drop: "accept e g = drop (Suc (length g) - 200) (g @ [e])"
  using array_slice_last [of 200 "g @ [e]"] by (simp add: accept_def Let_def)

lemma length_accept: "length (accept e g) \<le> 200"
  by (simp add: accept_drop)

lemma length_onMessage: "length g \<le> 200 \<Longrightarrow> length (fst (onMessage now m t g)) \<le> 200"
  by (simp add: onMessage_def Let_def length_accept)

lemma length_onUpdated: "length g \<le> 200 \<Longrightarrow> length (fst (onUpdated tabId ci g)) \<le> 200"
  by (auto simp: onUpdated_def intro: le_trans [OF length_filter_le])

lemma length_step: "length g \<le> 200 \<Longrightarrow> length (fst (step ev g)) \<le> 200"
  by (cases ev) (simp_all add: length_onMessage length_onUpdated)

lemma length_run: "length g \<le> 200 \<Longrightarrow> length (fst (run evs g)) \<le> 200"
proof (induction evs arbitrary: g)
  case Nil
  then show ?case by simp
next
  case (Cons ev evs)
  from Cons.prems have "length (fst (step ev g)) \<le> 200" by (rule length_step)
  then have "length (fst (run evs (fst (step ev g)))) \<le> 200" by (rule Cons.IH)
  then show ?case by (simp add: split_beta Let_def)
qed

lemma onMessage_captured:
  "onMessage now (captured e) t g =
     (accept (stamp now t e) g, [ERROR_UPDATE (accept (stamp now t e) g)])"
  by (simp add: onMessage_def captured_def Let_def)

lemma drop_drop_snoc:
  "drop (Suc (length (drop (n - 200) xs)) - 200) (drop (n - 200) xs @ [x])
     = drop (Suc n - 200) (xs @ [x])" if "n = length xs"
proof (cases "n \<le> 200")
  case True
  with that show ?thesis by simp
next
  case False
  with that have one: "Suc (length (drop (n - 200) xs)) - 200 = 1" by simp
  from False that have "drop (n - 200) xs @ [x] = drop (n - 200) (xs @ [x])" by simp
  then have "drop 1 (drop (n - 200) xs @ [x]) = drop (1 + (n - 200)) (xs @ [x])"
    by (simp only: drop_drop)
  moreover from False have "1 + (n - 200) = Suc n - 200" by simp
  ultimately show ?thesis by (simp only: one)
qed

lemma accept_all_suffix:
  "accept_all arrivals (drop (length xs - 200) xs)
     = drop (length (xs @ map (\<lambda>(now, e, t). stamp now t e) arrivals) - 200)
         (xs @ map (\<lambda>(now, e, t). stamp now t e) arrivals)"
proof (induction arrivals arbitrary: xs)
  case Nil
  then show ?case by simp
next
  case (Cons a arrivals)
  obtain now e t where a: "a = (now, e, t)" by (cases a)
  have "accept (stamp now t e) (drop (length xs - 200) xs)
          = drop (length (xs @ [stamp now t e]) - 200) (xs @ [stamp now t e])"
    using drop_drop_snoc [of "length xs" xs "stamp now t e"] by (simp add: accept_drop)
  then show ?case
    using Cons.IH [of "xs @ [stamp now t e]"] by (simp add: a onMessage_captured)
qed

text \<open>
  C1. Whatever messages and tab updates the service worker handles, starting
  from the empty buffer, the buffer never holds more than 200 entries; accepting
  one signal appends it and drops entries from the front only; and after a run of
  accepted signals the buffer is exactly the last 200 of them (stamped), in arrival
  order, whatever their severity.
\<close>

theorem buffer_bound_fifo:
  "length (fst (run evs [])) \<le> 200
   \<and> fst (onMessage now (captured e) t g) = drop (Suc (length g) - 200) (g @ [stamp now t e])
   \<and> accept_all arrivals []
       = drop (length arrivals - 200) (map (\<lambda>(now, e, t). stamp now t e) arrivals)"
proof (intro conjI)
  show "length (fst (run evs [])) \<le> 200" by (rule length_run) simp
  show "fst (onMessage now (captured e) t g)
          = drop (Suc (length g) - 200) (g @ [stamp now t e])"
    by (simp add: onMessage_captured accept_drop)
  show "accept_all arrivals []
          = drop (length arrivals - 200) (map (\<lambda>(now, e, t). stamp now t e) arrivals)"
    using accept_all_suffix [of arrivals "[]"] by simp
qed

section \<open>Invalidation on navigation start\<close>

lemma onUpdated_loading:
  "status ci = Some ''loading'' \<Longrightarrow>
     onUpdated T ci g = (filter (\<lambda>error. error ''tabId'' \<noteq> Some (JNum T)) g, [])"
  by (simp add: onUpdated_def)

text \<open>
  C2. After the listener has handled a \<open>loading\<close> update for tab \<open>T\<close>, no
  buffered entry carries \<open>tabId = T\<close>, and the entries of every other tab (those
  with another, a missing or an undefined \<open>tabId\<close>) are exactly the ones that were
  there before, in the same order.
\<close>

theorem invalidate_tab:
  assumes "status ci = Some ''loading''"
  shows "(\<forall>e \<in> set (fst (onUpdated T ci g)). e ''tabId'' \<noteq> Some (JNum T))
       \<and> filter (\<lambda>e. e ''tabId'' \<noteq> Some (JNum T)) (fst (onUpdated T ci g))
           = filter (\<lambda>e. e ''tabId'' \<noteq> Some (JNum T)) g
       \<and> fst (onUpdated T ci g) = filter (\<lambda>e. e ''tabId'' \<noteq> Some (JNum T)) g"
  using assms by (simp add: onUpdated_loading)

theorem invalidate_tab_witness:
  "[''tabId'' \<mapsto> JNum 7, ''message'' \<mapsto> JStr ''a'']
      \<notin> set (fst (onUpdated 7 \<lparr>status = Some ''loading''\<rparr>
            [[''tabId'' \<mapsto> JNum 7, ''message'' \<mapsto> JStr ''a''],
             [''tabId'' \<mapsto> JNum 8, ''message'' \<mapsto> JStr ''b''],
             [''tabId'' \<mapsto> JUndefined, ''message'' \<mapsto> JStr ''c'']]))
   \<and> length (fst (onUpdated 7 \<lparr>status = Some ''loading''\<rparr>
            [[''tabId'' \<mapsto> JNum 7, ''message'' \<mapsto> JStr ''a''],
             [''tabId'' \<mapsto> JNum 8, ''message'' \<mapsto> JStr ''b''],
             [''tabId'' \<mapsto> JUndefined, ''message'' \<mapsto> JStr ''c'']])) = 2"
proof -
  let ?ci = "\<lparr>status = Some ''loading''\<rparr>"
  let ?a = "[''tabId'' \<mapsto> JNum 7, ''message'' \<mapsto> JStr ''a'']"
  let ?g = "[?a,
             [''tabId'' \<mapsto> JNum 8, ''message'' \<mapsto> JStr ''b''],
             [''tabId'' \<mapsto> JUndefined, ''message'' \<mapsto> JStr ''c'']]"
  have loading: "status ?ci = Some ''loading''" by simp
  note inst = invalidate_tab [OF loading, of 7 ?g]
  from inst have "\<forall>e \<in> set (fst (onUpdated 7 ?ci ?g)). e ''tabId'' \<noteq> Some (JNum 7)"
    by (rule conjunct1)
  moreover have "?a ''tabId'' = Some (JNum 7)" by simp
  ultimately have "?a \<notin> set (fst (onUpdated 7 ?ci ?g))" by blast
  moreover from inst have "fst (onUpdated 7 ?ci ?g)
      = filter (\<lambda>e. e ''tabId'' \<noteq> Some (JNum 7)) ?g" by (rule conjunct2 [THEN conjunct2])
  then have "length (fst (onUpdated 7 ?ci ?g)) = 2" by simp
  ultimately show ?thesis by (rule conjI)
qed

section \<open>What the aggregator broadcasts\<close>

text \<open>
  C6, as the code has it. Handling \<open>ERROR_CAPTURED\<close> sends exactly one
  \<open>ERROR_UPDATE\<close>, and it carries the whole buffer as it stands after the push and
  the trim. The tab listener sends nothing, whether or not it removed entries.
  \<open>GET_ERRORS\<close> is answered with the buffer as it stands, which is how an
  observer comes to see a purge.
\<close>

theorem broadcast_on_accept_only:
  "snd (onMessage now (captured e) t g)
     = [ERROR_UPDATE (fst (onMessage now (captured e) t g))]
   \<and> snd (onUpdated T ci g) = []
   \<and> onMessage now \<lparr>msg_type = ''GET_ERRORS'', msg_error = e'\<rparr> t g = (g, [Response g])"
proof (intro conjI)
  show "snd (onMessage now (captured e) t g)
      = [ERROR_UPDATE (fst (onMessage now (captured e) t g))]"
    by (simp add: onMessage_captured)
  show "snd (onUpdated T ci g) = []"
    by (simp add: onUpdated_def)
  show "onMessage now \<lparr>msg_type = ''GET_ERRORS'', msg_error = e'\<rparr> t g = (g, [Response g])"
    by (simp add: onMessage_def)
qed

text \<open>
  A purge that is not broadcast: tab 7 starts loading while the buffer holds one
  entry of tab 7. The entry is removed and nothing is sent.
\<close>

theorem purge_not_broadcast:
  "fst (onUpdated 7 \<lparr>status = Some ''loading''\<rparr> [[''tabId'' \<mapsto> JNum 7]]) = []
   \<and> snd (onUpdated 7 \<lparr>status = Some ''loading''\<rparr> [[''tabId'' \<mapsto> JNum 7]]) = []"
  by (simp add: onUpdated_def)

section \<open>What a capture sends and stores\<close>

lemma captureError_sent:
  "sent (snd (captureError ev type severity msg details p))
     = sent p @ [new_error ev (Suc (errorCount p)) type severity msg details]"
  by (simp add: captureError_def Let_def split: stored.split)

lemma captureError_console:
  "console (snd (captureError ev type severity msg details p)) = console p"
  by (simp add: captureError_def Let_def split: stored.split)

lemma captureError_count:
  "errorCount (snd (captureError ev type severity msg details p)) = Suc (errorCount p)"
  by (simp add: captureError_def Let_def split: stored.split)

lemma captureError_returns:
  "storage p = NoItem \<or> storage p = Entries old \<Longrightarrow>
     fst (captureError ev type severity msg details p) = Inr ()"
  by (auto simp: captureError_def Let_def)

lemma captureError_storage:
  "storage p = Entries old \<Longrightarrow>
     storage (snd (captureError ev type severity msg details p))
       = mirror (new_error ev (Suc (errorCount p)) type severity msg details) old"
  by (simp add: captureError_def Let_def)

lemma captureError_storage_NoItem:
  "storage p = NoItem \<Longrightarrow>
     storage (snd (captureError ev type severity msg details p))
       = mirror (new_error ev (Suc (errorCount p)) type severity msg details) []"
  by (simp add: captureError_def Let_def)

lemma mirror_take: "mirror e old = Entries (take 50 (map json (e # old)))"
  by (simp add: mirror_def Let_def take_map)

lemma new_error_severity:
  "details ''severity'' = None \<Longrightarrow>
     new_error ev n type severity msg details ''severity'' = Some (JStr severity)"
  by (simp add: new_error_def map_add_def)

section \<open>Severity of network signals\<close>

text \<open>
  A response with a status from 400 on makes the \<open>fetch\<close> wrapper send a
  signal whose severity is \<open>warning\<close> below 500 and \<open>error\<close> from 500 on, before
  anything else it sends. \<open>ok\<close> is false for such a response.
\<close>

lemma fetch_catch_sent:
  "\<exists>e2. sent (snd (fetch_catch ev rq thrown p)) = sent p @ [e2]"
proof -
  let ?c = "captureError ev ''network'' ''error''
             (''Network request failed: '' @ exn_message thrown)
             [''url'' \<mapsto> req_url rq,
              ''method'' \<mapsto> JStr (method_or_get (req_method rq)),
              ''error'' \<mapsto> JStr (exn_message thrown)] p"
  have "snd (fetch_catch ev rq thrown p) = snd ?c"
    by (cases ?c) (simp add: fetch_catch_def split: sum.split)
  then show ?thesis by (simp only: captureError_sent) blast
qed

lemma fetch_response_severity:
  assumes "\<not> ok r" and "400 \<le> http_status r"
  shows "\<exists>e rest. sent (snd (window_fetch ev rq (Inr r) p)) = sent p @ e # rest
           \<and> e ''severity''
               = Some (JStr (if 500 \<le> http_status r then ''error'' else ''warning''))"
proof -
  define sev where "sev = (if 500 \<le> http_status r then ''error'' else ''warning'')"
  define details where "details = [''url'' \<mapsto> req_url rq,
                   ''method'' \<mapsto> JStr (method_or_get (req_method rq)),
                   ''status'' \<mapsto> JNum (int (http_status r)),
                   ''statusText'' \<mapsto> JStr (statusText r)]"
  define msg where "msg = ''HTTP '' @ decimal (http_status r) @ '': '' @ statusText r"
  define c where "c = captureError ev ''network'' sev msg details p"
  define e where "e = new_error ev (Suc (errorCount p)) ''network'' sev msg details"
  have "details ''severity'' = None" by (simp add: details_def)
  then have sev: "e ''severity'' = Some (JStr sev)"
    unfolding e_def by (rule new_error_severity)
  have first: "sent (snd c) = sent p @ [e]"
    unfolding c_def e_def by (rule captureError_sent)
  have wf: "window_fetch ev rq (Inr r) p =
      (case c of (Inl thrown, p1) \<Rightarrow> fetch_catch ev rq thrown p1 | (Inr u, p1) \<Rightarrow> (Inr r, p1))"
    using assms by (simp add: window_fetch_def c_def sev_def msg_def details_def)
  show ?thesis
  proof (cases "fst c")
    case (Inr u)
    with wf have "snd (window_fetch ev rq (Inr r) p) = snd c"
      by (cases c) simp
    with first sev show ?thesis by (simp add: sev_def)
  next
    case (Inl thrown)
    with wf have "window_fetch ev rq (Inr r) p = fetch_catch ev rq thrown (snd c)"
      by (cases c) simp
    moreover obtain e2 where "sent (snd (fetch_catch ev rq thrown (snd c))) = sent (snd c) @ [e2]"
      using fetch_catch_sent by blast
    ultimately show ?thesis using first sev by (simp add: sev_def)
  qed
qed

text \<open>
  A \<open>fetch\<close> that rejects makes the wrapper send one signal of severity
  \<open>error\<close>, and the wrapper's promise rejects as well.
\<close>

lemma fetch_rejection_severity:
  "\<exists>e. sent (snd (window_fetch ev rq (Inl error) p)) = sent p @ [e]
        \<and> e ''severity'' = Some (JStr ''error'')
        \<and> isl (fst (window_fetch ev rq (Inl error) p))"
proof -
  let ?details = "[''url'' \<mapsto> req_url rq,
                   ''method'' \<mapsto> JStr (method_or_get (req_method rq)),
                   ''error'' \<mapsto> JStr (exn_message error)]"
  let ?msg = "''Network request failed: '' @ exn_message error"
  let ?c = "captureError ev ''network'' ''error'' ?msg ?details p"
  let ?e = "new_error ev (Suc (errorCount p)) ''network'' ''error'' ?msg ?details"
  have sev: "?e ''severity'' = Some (JStr ''error'')"
    by (rule new_error_severity) simp
  have first: "sent (snd ?c) = sent p @ [?e]" by (rule captureError_sent)
  have "snd (window_fetch ev rq (Inl error) p) = snd ?c"
    by (simp add: window_fetch_def fetch_catch_def split: prod.split sum.split)
  moreover have "isl (fst (window_fetch ev rq (Inl error) p))"
    by (simp add: window_fetch_def fetch_catch_def split: prod.split sum.split)
  ultimately show ?thesis using first sev by auto
qed

text \<open>
  An \<open>XMLHttpRequest\<close> that completes with a status from 400 on: one signal,
  \<open>warning\<close> below 500 and \<open>error\<close> from 500 on.
\<close>

lemma xhr_response_severity:
  assumes "readyState x = 4" and "400 \<le> xhr_status x"
  shows "\<exists>e. sent (snd (onreadystatechange ev x p)) = sent p @ [e]
           \<and> e ''severity''
               = Some (JStr (if 500 \<le> xhr_status x then ''error'' else ''warning''))"
proof -
  let ?sev = "if 500 \<le> xhr_status x then ''error'' else ''warning''"
  let ?details = "[''url'' \<mapsto> xhr_url x,
                   ''method'' \<mapsto> xhr_method x,
                   ''status'' \<mapsto> JNum (int (xhr_status x)),
                   ''statusText'' \<mapsto> JStr (xhr_statusText x)]"
  let ?msg = "''HTTP '' @ decimal (xhr_status x) @ '': '' @ xhr_statusText x"
  let ?e = "new_error ev (Suc (errorCount p)) ''network'' ?sev ?msg ?details"
  have sev: "?e ''severity'' = Some (JStr ?sev)"
    by (rule new_error_severity) simp
  have "onreadystatechange ev x p = captureError ev ''network'' ?sev ?msg ?details p"
    using assms by (simp add: onreadystatechange_def)
  then have "sent (snd (onreadystatechange ev x p)) = sent p @ [?e]"
    by (simp only: captureError_sent)
  with sev show ?thesis by blast
qed

text \<open>
  C4, where the code departs from the specification. An \<open>XMLHttpRequest\<close> that fails below
  HTTP completes with \<open>readyState\<close> 4 and \<open>status\<close> 0. The handler tests
  \<open>status >= 400\<close> only: it captures nothing, and the page state is untouched. The
  \<open>fetch\<close> wrapper does report the same kind of failure, with severity
  \<open>error\<close>.
\<close>

theorem xhr_transport_failure_not_captured:
  "onreadystatechange ev (x\<lparr>readyState := 4, xhr_status := 0\<rparr>) p = (Inr (), p)"
  by (simp add: onreadystatechange_def)

text \<open>
  A failure of the capture turns a response that arrived into a rejection: the
  \<open>try\<close> block of the \<open>fetch\<close> wrapper encloses the capture, and its
  \<open>catch\<close> block captures again and throws.
\<close>

lemma fetch_capture_failure_rejects:
  "\<not> ok r \<Longrightarrow> 400 \<le> http_status r \<Longrightarrow> storage p = BadJson m \<Longrightarrow>
     isl (fst (window_fetch ev rq (Inr r) p))"
  by (simp add: window_fetch_def fetch_catch_def captureError_def Let_def)

section \<open>The console wrappers\<close>

text \<open>The original method is reached in every case, with the arguments unchanged.\<close>

lemma console_error_calls_original:
  "console (snd (console_error ev args p)) = console p @ [(''error'', args)]"
  by (simp add: console_error_def captureError_console)

lemma console_warn_calls_original:
  "console (snd (console_warn ev args p)) = console p @ [(''warn'', args)]"
  by (simp add: console_warn_def captureError_console)

text \<open>
  C8, where the code departs from the specification. When the page's storage item
  \<open>bugtrace-errors\<close> holds a text that is not JSON, the wrapped \<open>console.error\<close>
  calls the original and sends the signal, and then the \<open>SyntaxError\<close> of
  \<open>JSON.parse\<close> leaves \<open>captureError\<close> and the wrapper: the caller in the page
  gets an exception that the original \<open>console.error\<close> never throws.
\<close>

theorem console_error_propagates:
  "fst (console_error ev args (p\<lparr>storage := BadJson m\<rparr>)) = Inl (SyntaxError m)
   \<and> console (snd (console_error ev args (p\<lparr>storage := BadJson m\<rparr>)))
       = console p @ [(''error'', args)]"
  by (simp add: console_error_def captureError_def Let_def)

section \<open>The mirror in the page's localStorage\<close>

lemma json_idem: "json (json obj) = json obj"
  by (rule ext) (simp add: json_def split: option.split jsval.split)

lemma take_append_take: "take n (xs @ take n ys) = take n (xs @ ys)"
  by (simp add: min_def)

lemma sent_capture_all:
  "sent (capture_all ev cs p) = sent p @ signals ev (errorCount p) cs"
proof (induction cs arbitrary: p)
  case Nil
  then show ?case by simp
next
  case (Cons c cs)
  obtain type severity msg details where c: "c = (type, severity, msg, details)"
    by (cases c)
  show ?case
    by (simp add: c Cons.IH captureError_sent captureError_count)
qed

lemma length_signals: "length (signals ev n cs) = length cs"
  by (induction cs arbitrary: n) auto

lemma storage_capture_all:
  "storage p = Entries old \<Longrightarrow>
     storage (capture_all ev cs p)
       = (if cs = [] then Entries old
          else Entries (take 50 (map json (rev (signals ev (errorCount p) cs) @ old))))"
proof (induction cs arbitrary: p old)
  case Nil
  then show ?case by simp
next
  case (Cons c cs)
  obtain type severity msg details where c: "c = (type, severity, msg, details)"
    by (cases c)
  define e where "e = new_error ev (Suc (errorCount p)) type severity msg details"
  define p1 where "p1 = snd (captureError ev type severity msg details p)"
  have st1: "storage p1 = Entries (take 50 (map json (e # old)))"
    unfolding p1_def e_def using Cons.prems
    by (simp add: captureError_storage mirror_take)
  have n1: "errorCount p1 = Suc (errorCount p)"
    unfolding p1_def by (rule captureError_count)
  show ?case
  proof (cases "cs = []")
    case True
    with st1 show ?thesis by (simp add: c e_def p1_def)
  next
    case False
    let ?rest = "rev (signals ev (Suc (errorCount p)) cs)"
    have "storage (capture_all ev cs p1)
            = Entries (take 50 (map json (?rest @ take 50 (map json (e # old)))))"
      using Cons.IH [OF st1] False by (simp add: n1)
    also have "take 50 (map json (?rest @ take 50 (map json (e # old))))
                 = take 50 (map json ?rest @ take 50 (map json (map json (e # old))))"
      by (simp add: take_map)
    also have "\<dots> = take 50 (map json ?rest @ map json (e # old))"
      by (simp only: take_append_take map_map comp_def json_idem)
    finally show ?thesis by (simp add: c e_def p1_def)
  qed
qed

lemma storage_capture_all_NoItem:
  assumes "storage p = NoItem"
  shows "storage (capture_all ev cs p)
           = (if cs = [] then NoItem
              else Entries (take 50 (map json (rev (signals ev (errorCount p) cs)))))"
proof (cases cs)
  case Nil
  with assms show ?thesis by simp
next
  case (Cons c rest)
  obtain type severity msg details where c: "c = (type, severity, msg, details)"
    by (cases c)
  define e where "e = new_error ev (Suc (errorCount p)) type severity msg details"
  define p1 where "p1 = snd (captureError ev type severity msg details p)"
  have st1: "storage p1 = Entries (take 50 (map json [e]))"
    unfolding p1_def e_def using assms
    by (simp add: captureError_storage_NoItem mirror_take)
  have n1: "errorCount p1 = Suc (errorCount p)"
    unfolding p1_def by (rule captureError_count)
  show ?thesis
  proof (cases "rest = []")
    case True
    with st1 show ?thesis by (simp add: Cons c e_def p1_def)
  next
    case False
    let ?rest = "rev (signals ev (Suc (errorCount p)) rest)"
    have "storage (capture_all ev rest p1)
            = Entries (take 50 (map json (?rest @ take 50 (map json [e]))))"
      using storage_capture_all [OF st1, of ev rest] False by (simp add: n1)
    also have "take 50 (map json (?rest @ take 50 (map json [e])))
                 = take 50 (map json ?rest @ take 50 (map json (map json [e])))"
      by (simp add: take_map)
    also have "\<dots> = take 50 (map json ?rest @ map json [e])"
      by (simp only: take_append_take map_map comp_def json_idem)
    finally show ?thesis by (simp add: Cons c e_def p1_def)
  qed
qed

lemma json_defined: "json obj k = Some v \<longleftrightarrow> obj k = Some v \<and> v \<noteq> JUndefined"
  by (auto simp: json_def split: option.splits jsval.splits)

lemma new_error_common:
  assumes "details k = None"
  shows "new_error ev n type severity msg details k
           = [''id'' \<mapsto> JStr (fresh_id ev n),
              ''timestamp'' \<mapsto> JStr (now_iso ev n),
              ''type'' \<mapsto> JStr type,
              ''severity'' \<mapsto> JStr severity,
              ''message'' \<mapsto> JStr msg,
              ''url'' \<mapsto> JStr (href ev),
              ''userAgent'' \<mapsto> JStr (userAgent ev)] k"
  using assms by (simp add: new_error_def map_add_def)

lemma length_mirror:
  "storage (snd (captureError ev type severity msg details p)) = Entries xs \<Longrightarrow>
     length xs \<le> 50"
  by (auto simp: captureError_def Let_def mirror_def split: stored.splits if_splits)

text \<open>
  The mirror as the code intends it. A capture that finds the storage item
  absent or holding an array returns normally and leaves the item holding the new
  signal in front of the former entries, cut to 50, each as its JSON text reads
  back: with every property that is not \<open>undefined\<close>, and no other. From an
  absent item, a run of captures leaves the item holding the 50 most recent
  signals of the run, newest first, each of which was also sent to the service
  worker.
\<close>

theorem mirror_bounded:
  "(storage p = Entries old \<longrightarrow>
      fst (captureError ev type severity msg details p) = Inr ()
      \<and> storage (snd (captureError ev type severity msg details p))
          = Entries (take 50 (map json
              (new_error ev (Suc (errorCount p)) type severity msg details # old))))
   \<and> (storage p = NoItem \<longrightarrow> cs \<noteq> [] \<longrightarrow>
      storage (capture_all ev cs p)
          = Entries (take 50 (map json (rev (signals ev (errorCount p) cs))))
      \<and> sent (capture_all ev cs p) = sent p @ signals ev (errorCount p) cs)
   \<and> (storage p = NoItem \<longrightarrow>
      (\<exists>xs. storage (capture_all ev (c # cs) p) = Entries xs \<and> length xs = min 50 (Suc (length cs))))
   \<and> (json obj k = Some v \<longleftrightarrow> obj k = Some v \<and> v \<noteq> JUndefined)"
proof (intro conjI impI)
  show "json obj k = Some v \<longleftrightarrow> obj k = Some v \<and> v \<noteq> JUndefined"
    by (rule json_defined)
next
  assume old: "storage p = Entries old"
  then show "fst (captureError ev type severity msg details p) = Inr ()"
    by (simp add: captureError_returns)
  from old show "storage (snd (captureError ev type severity msg details p))
      = Entries (take 50 (map json
          (new_error ev (Suc (errorCount p)) type severity msg details # old)))"
    by (simp add: captureError_storage mirror_take)
next
  assume "storage p = NoItem" and "cs \<noteq> []"
  then show "storage (capture_all ev cs p)
      = Entries (take 50 (map json (rev (signals ev (errorCount p) cs))))"
    by (simp add: storage_capture_all_NoItem)
next
  show "sent (capture_all ev cs p) = sent p @ signals ev (errorCount p) cs"
    by (rule sent_capture_all)
next
  assume "storage p = NoItem"
  then have "storage (capture_all ev (c # cs) p)
      = Entries (take 50 (map json (rev (signals ev (errorCount p) (c # cs)))))"
    by (simp add: storage_capture_all_NoItem)
  moreover have "length (take 50 (map json (rev (signals ev (errorCount p) (c # cs)))))
      = min 50 (Suc (length cs))"
    by (simp add: length_signals min.commute)
  ultimately show "\<exists>xs. storage (capture_all ev (c # cs) p) = Entries xs
      \<and> length xs = min 50 (Suc (length cs))"
    by blast
qed

theorem mirror_bounded_witness:
  "\<exists>xs. storage (capture_all
            \<lparr>fresh_id = decimal, now_iso = (\<lambda>n. ''2024-01-01T00:00:00.000Z''),
             href = ''https://example.org/'', userAgent = ''UA''\<rparr>
            (replicate 51 (''console'', ''error'', ''boom'', Map.empty))
            \<lparr>errorCount = 0, sent = [], storage = NoItem, console = []\<rparr>) = Entries xs
        \<and> length xs = 50"
proof -
  let ?ev = "\<lparr>fresh_id = decimal, now_iso = (\<lambda>n. ''2024-01-01T00:00:00.000Z''),
             href = ''https://example.org/'', userAgent = ''UA''\<rparr>"
  let ?c = "(''console'', ''error'', ''boom'', Map.empty :: jsobj)"
  let ?p = "\<lparr>errorCount = 0, sent = [], storage = NoItem, console = []\<rparr>"
  have start: "storage ?p = NoItem" by simp
  have "\<exists>xs. storage (capture_all ?ev (?c # replicate 50 ?c) ?p) = Entries xs
          \<and> length xs = min 50 (Suc (length (replicate 50 ?c)))"
    using mirror_bounded [where p = ?p and ev = ?ev and c = ?c and cs = "replicate 50 ?c"] start
    by blast
  moreover have "replicate 51 ?c = ?c # replicate 50 ?c"
    by (simp add: numeral_eq_Suc)
  ultimately show ?thesis by simp
qed

text \<open>
  C10, where the code departs from the specification. When the page's storage
  item holds a text that is not JSON, a capture sends its signal to the service
  worker and then throws at \<open>JSON.parse\<close>, before \<open>unshift\<close> and \<open>setItem\<close>:
  the signal is not mirrored, and the item is left as it was. (An item that
  parses to something other than an array has the same effect, at \<open>unshift\<close>.)
  This is the unguarded access of C8.
\<close>

theorem capture_not_mirrored:
  "fst (captureError ev type severity msg details (p\<lparr>storage := BadJson m\<rparr>))
     = Inl (SyntaxError m)
   \<and> sent (snd (captureError ev type severity msg details (p\<lparr>storage := BadJson m\<rparr>)))
       = sent p @ [new_error ev (Suc (errorCount p)) type severity msg details]
   \<and> storage (snd (captureError ev type severity msg details (p\<lparr>storage := BadJson m\<rparr>)))
       = BadJson m
   \<and> fst (captureError ev type severity msg details (p\<lparr>storage := NonArray m\<rparr>))
       = Inl (TypeError m)
   \<and> storage (snd (captureError ev type severity msg details (p\<lparr>storage := NonArray m\<rparr>)))
       = NonArray m"
  by (simp add: captureError_def Let_def)

section \<open>Signals of a scan pass\<close>




















lemmas cls_simps = code_def lower_code_def is_space_def is_digit_def is_word_def
  is_line_end_def lit_def lit_i_def

lemma eval_detector: "hd patterns \<in> set patterns"
  by (simp add: patterns_def)



section \<open>Failure isolation in the fan-out\<close>

lemma try_source_failed: "isl outcome \<Longrightarrow> try_source selected outcome s = s"
  by (cases outcome) (simp_all add: try_source_def)

lemma try_source_unselected: "try_source False outcome s = s"
  by (simp add: try_source_def)

lemma try_source_Inr: "try_source True (Inr rs) s = s @ rs"
  by (simp add: try_source_def)

lemma so_failure:
  "so_api nt query (min m 20) = Rejects e \<or> so_api nt query (min m 20) = Replies False st b
     \<Longrightarrow> isl (searchStackOverflow nt query m)"
  by (auto simp: searchStackOverflow_def)

lemma gh_failure:
  "gh_api nt (query @ '' type:issue state:closed'') (min m 20) = Rejects e
     \<or> gh_api nt (query @ '' type:issue state:closed'') (min m 20) = Replies False st b
     \<Longrightarrow> isl (searchGitHubIssues nt query m)"
  by (auto simp: searchGitHubIssues_def)

lemma sources_or_default_update [simp]:
  "sources_or_default (opts\<lparr>sources := Some s\<rparr>) = s"
  by (simp add: sources_or_default_def)

lemma maxResults_or_default_update [simp]:
  "maxResults_or_default (opts\<lparr>sources := s\<rparr>) = maxResults_or_default opts"
  by (simp add: maxResults_or_default_def)

lemma gathered_without_so:
  assumes "isl (searchStackOverflow nt (extractSearchQuery error) (maxResults_or_default opts))"
  shows "gathered nt error opts
           = gathered nt error
               (opts\<lparr>sources := Some (removeAll stackoverflow (sources_or_default opts))\<rparr>)"
  using assms by (simp add: gathered_def Let_def try_source_failed try_source_unselected)

lemma gathered_without_gh:
  assumes "isl (searchGitHubIssues nt (extractSearchQuery error) (maxResults_or_default opts))"
  shows "gathered nt error opts
           = gathered nt error
               (opts\<lparr>sources := Some (removeAll github (sources_or_default opts))\<rparr>)"
  using assms by (simp add: gathered_def Let_def try_source_failed try_source_unselected)

lemma gathered_all_failed:
  assumes "stackoverflow \<in> set (sources_or_default opts) \<longrightarrow>
             isl (searchStackOverflow nt (extractSearchQuery error) (maxResults_or_default opts))"
    and "github \<in> set (sources_or_default opts) \<longrightarrow>
             isl (searchGitHubIssues nt (extractSearchQuery error) (maxResults_or_default opts))"
    and "mdn \<in> set (sources_or_default opts) \<longrightarrow>
             searchMDN (extractSearchQuery error) (maxResults_or_default opts)
               = (Inr [] :: exn + 'n suggestion list)"
  shows "gathered nt error opts = ([] :: ('n::zero) suggestion list)"
proof -
  let ?q = "extractSearchQuery error" and ?m = "maxResults_or_default opts"
  let ?srcs = "sources_or_default opts"
  have s1: "try_source (stackoverflow \<in> set ?srcs) (searchStackOverflow nt ?q ?m) [] = []"
    using assms(1) by (cases "stackoverflow \<in> set ?srcs")
      (simp_all add: try_source_failed try_source_unselected)
  have s2: "try_source (github \<in> set ?srcs) (searchGitHubIssues nt ?q ?m) [] = []"
    using assms(2) by (cases "github \<in> set ?srcs")
      (simp_all add: try_source_failed try_source_unselected)
  have s3: "try_source (mdn \<in> set ?srcs) (searchMDN ?q ?m) []
              = ([] :: 'n suggestion list)"
    using assms(3) by (cases "mdn \<in> set ?srcs")
      (simp_all add: try_source_Inr try_source_unselected)
  show ?thesis
    unfolding gathered_def Let_def by (simp only: s1 s2 s3)
qed

lemma array_slice_empty: "array_slice 0 e [] = []"
  by (simp add: array_slice_def)

lemma array_slice_0:
  "0 \<le> m \<Longrightarrow> array_slice 0 (Some m) xs = take (nat m) xs"
  by (simp add: array_slice_def relative_index_def Let_def min_def)

text \<open>
  C5. \<open>getSuggestions\<close> never rejects. A source whose search throws
  (\<open>fetch\<close> rejects, or the response is not \<open>ok\<close>) changes nothing but its own
  share: the result is the one that the same call gives with that source left out
  of the selection. With all three sources selected, one of the two network
  sources failing, and the other two returning \<open>g\<close> and \<open>d\<close>, the result is
  \<open>g\<close> followed by \<open>d\<close>, cut to the cap. When every selected source fails or
  finds nothing, the result is the empty list.
\<close>

theorem failure_isolation:
  fixes nt :: "('n::zero) net"
  shows "(\<exists>rs. getSuggestions nt error opts = Inr rs)
   \<and> (so_api nt (extractSearchQuery error) (min (maxResults_or_default opts) 20) = Rejects e
        \<or> so_api nt (extractSearchQuery error) (min (maxResults_or_default opts) 20) = Replies False st b
      \<longrightarrow> isl (searchStackOverflow nt (extractSearchQuery error) (maxResults_or_default opts)))
   \<and> (gh_api nt (extractSearchQuery error @ '' type:issue state:closed'')
            (min (maxResults_or_default opts) 20) = Rejects e
        \<or> gh_api nt (extractSearchQuery error @ '' type:issue state:closed'')
            (min (maxResults_or_default opts) 20) = Replies False st' b'
      \<longrightarrow> isl (searchGitHubIssues nt (extractSearchQuery error) (maxResults_or_default opts)))
   \<and> (isl (searchStackOverflow nt (extractSearchQuery error) (maxResults_or_default opts)) \<longrightarrow>
        getSuggestions nt error opts
          = getSuggestions nt error
              (opts\<lparr>sources := Some (removeAll stackoverflow (sources_or_default opts))\<rparr>))
   \<and> (isl (searchGitHubIssues nt (extractSearchQuery error) (maxResults_or_default opts)) \<longrightarrow>
        getSuggestions nt error opts
          = getSuggestions nt error
              (opts\<lparr>sources := Some (removeAll github (sources_or_default opts))\<rparr>))
   \<and> (sources opts = Some [stackoverflow, github, mdn]
        \<and> isl (searchStackOverflow nt (extractSearchQuery error) (maxResults_or_default opts))
        \<and> searchGitHubIssues nt (extractSearchQuery error) (maxResults_or_default opts) = Inr g
        \<and> searchMDN (extractSearchQuery error) (maxResults_or_default opts) = Inr d \<longrightarrow>
        getSuggestions nt error opts
          = Inr (array_slice 0 (Some (maxResults_or_default opts)) (g @ d)))
   \<and> (sources opts = Some [stackoverflow, github, mdn]
        \<and> searchStackOverflow nt (extractSearchQuery error) (maxResults_or_default opts) = Inr s
        \<and> isl (searchGitHubIssues nt (extractSearchQuery error) (maxResults_or_default opts))
        \<and> searchMDN (extractSearchQuery error) (maxResults_or_default opts) = Inr d \<longrightarrow>
        getSuggestions nt error opts
          = Inr (array_slice 0 (Some (maxResults_or_default opts)) (s @ d)))
   \<and> ((stackoverflow \<in> set (sources_or_default opts) \<longrightarrow>
          isl (searchStackOverflow nt (extractSearchQuery error) (maxResults_or_default opts)))
        \<and> (github \<in> set (sources_or_default opts) \<longrightarrow>
          isl (searchGitHubIssues nt (extractSearchQuery error) (maxResults_or_default opts)))
        \<and> (mdn \<in> set (sources_or_default opts) \<longrightarrow>
          searchMDN (extractSearchQuery error) (maxResults_or_default opts)
            = (Inr [] :: exn + 'n suggestion list)) \<longrightarrow>
        getSuggestions nt error opts = Inr [])"
proof (intro conjI impI)
  show "\<exists>rs. getSuggestions nt error opts = Inr rs"
    by (simp add: getSuggestions_def)
next
  assume "so_api nt (extractSearchQuery error) (min (maxResults_or_default opts) 20) = Rejects e
      \<or> so_api nt (extractSearchQuery error) (min (maxResults_or_default opts) 20)
          = Replies False st b"
  then show "isl (searchStackOverflow nt (extractSearchQuery error) (maxResults_or_default opts))"
    by (rule so_failure)
next
  assume "gh_api nt (extractSearchQuery error @ '' type:issue state:closed'')
        (min (maxResults_or_default opts) 20) = Rejects e
      \<or> gh_api nt (extractSearchQuery error @ '' type:issue state:closed'')
        (min (maxResults_or_default opts) 20) = Replies False st' b'"
  then show "isl (searchGitHubIssues nt (extractSearchQuery error) (maxResults_or_default opts))"
    by (rule gh_failure)
next
  assume "isl (searchStackOverflow nt (extractSearchQuery error) (maxResults_or_default opts))"
  then show "getSuggestions nt error opts
      = getSuggestions nt error
          (opts\<lparr>sources := Some (removeAll stackoverflow (sources_or_default opts))\<rparr>)"
    using gathered_without_so [of nt error opts] by (simp add: getSuggestions_def)
next
  assume "isl (searchGitHubIssues nt (extractSearchQuery error) (maxResults_or_default opts))"
  then show "getSuggestions nt error opts
      = getSuggestions nt error
          (opts\<lparr>sources := Some (removeAll github (sources_or_default opts))\<rparr>)"
    using gathered_without_gh [of nt error opts] by (simp add: getSuggestions_def)
next
  assume a: "sources opts = Some [stackoverflow, github, mdn]
      \<and> isl (searchStackOverflow nt (extractSearchQuery error) (maxResults_or_default opts))
      \<and> searchGitHubIssues nt (extractSearchQuery error) (maxResults_or_default opts) = Inr g
      \<and> searchMDN (extractSearchQuery error) (maxResults_or_default opts) = Inr d"
  then have "gathered nt error opts = g @ d"
    by (simp add: gathered_def Let_def sources_or_default_def try_source_failed try_source_Inr)
  then show "getSuggestions nt error opts
      = Inr (array_slice 0 (Some (maxResults_or_default opts)) (g @ d))"
    by (simp add: getSuggestions_def)
next
  assume a: "sources opts = Some [stackoverflow, github, mdn]
      \<and> searchStackOverflow nt (extractSearchQuery error) (maxResults_or_default opts) = Inr s
      \<and> isl (searchGitHubIssues nt (extractSearchQuery error) (maxResults_or_default opts))
      \<and> searchMDN (extractSearchQuery error) (maxResults_or_default opts) = Inr d"
  then have "gathered nt error opts = s @ d"
    by (simp add: gathered_def Let_def sources_or_default_def try_source_failed try_source_Inr)
  then show "getSuggestions nt error opts
      = Inr (array_slice 0 (Some (maxResults_or_default opts)) (s @ d))"
    by (simp add: getSuggestions_def)
next
  assume "(stackoverflow \<in> set (sources_or_default opts) \<longrightarrow>
        isl (searchStackOverflow nt (extractSearchQuery error) (maxResults_or_default opts)))
      \<and> (github \<in> set (sources_or_default opts) \<longrightarrow>
        isl (searchGitHubIssues nt (extractSearchQuery error) (maxResults_or_default opts)))
      \<and> (mdn \<in> set (sources_or_default opts) \<longrightarrow>
        searchMDN (extractSearchQuery error) (maxResults_or_default opts)
          = (Inr [] :: exn + 'n suggestion list))"
  then have "gathered nt error opts = []"
    using gathered_all_failed [of opts nt error] by blast
  then show "getSuggestions nt error opts = Inr []"
    by (simp add: getSuggestions_def array_slice_empty)
qed

theorem failure_isolation_witness:
  "getSuggestions
     \<lparr>so_api = (\<lambda>query n. Rejects (TypeError ''Failed to fetch'')),
      gh_api = (\<lambda>query n. Replies True 200 (Data (Some
                 [\<lparr>gh_id = 7, gh_title = ''Crash on load'', html_url = ''https://github.com/o/r/issues/7'',
                   gh_body = None, gh_score = (1::int), gh_labels = None,
                   reactions_total_count = None\<rparr>]))),
      decodeHtml = (\<lambda>s. s)\<rparr>
     \<lparr>err_message = ''boom'', err_type = ''console''\<rparr>
     \<lparr>sources = Some [stackoverflow, github, mdn], maxResults = None\<rparr>
   = Inr (array_slice 0 (Some 10)
       (gh_suggestion \<lparr>gh_id = 7, gh_title = ''Crash on load'',
          html_url = ''https://github.com/o/r/issues/7'', gh_body = None, gh_score = 1,
          gh_labels = None, reactions_total_count = None\<rparr>
        # mdn_loop (extractSearchQuery \<lparr>err_message = ''boom'', err_type = ''console''\<rparr>) 10
            mdnMappings []))"
proof -
  let ?item = "\<lparr>gh_id = 7, gh_title = ''Crash on load'',
      html_url = ''https://github.com/o/r/issues/7'', gh_body = None, gh_score = (1::int),
      gh_labels = None, reactions_total_count = None\<rparr>"
  let ?nt = "\<lparr>so_api = (\<lambda>query n. Rejects (TypeError ''Failed to fetch'')),
      gh_api = (\<lambda>query n. Replies True 200 (Data (Some [?item]))),
      decodeHtml = (\<lambda>s. s)\<rparr>"
  let ?error = "\<lparr>err_message = ''boom'', err_type = ''console''\<rparr>"
  let ?opts = "\<lparr>sources = Some [stackoverflow, github, mdn], maxResults = None\<rparr>"
  let ?d = "mdn_loop (extractSearchQuery ?error) 10 mdnMappings [] :: int suggestion list"
  have m: "maxResults_or_default ?opts = 10" by (simp add: maxResults_or_default_def)
  have "sources ?opts = Some [stackoverflow, github, mdn]" by simp
  moreover have "isl (searchStackOverflow ?nt (extractSearchQuery ?error) 10)"
    by (simp add: searchStackOverflow_def)
  moreover have "searchGitHubIssues ?nt (extractSearchQuery ?error) 10 = Inr [gh_suggestion ?item]"
    by (simp add: searchGitHubIssues_def items_or_empty_def)
  moreover have "searchMDN (extractSearchQuery ?error) 10 = Inr ?d"
    by (simp add: searchMDN_def)
  ultimately have "getSuggestions ?nt ?error ?opts
      = Inr (array_slice 0 (Some (maxResults_or_default ?opts)) ([gh_suggestion ?item] @ ?d))"
    using failure_isolation [where nt = ?nt and error = ?error and opts = ?opts
        and g = "[gh_suggestion ?item]" and d = ?d]
    unfolding m by blast
  then show ?thesis by (simp only: m append_Cons append_Nil)
qed

section \<open>The cap on the number of results\<close>

lemma length_getSuggestions:
  "0 \<le> maxResults_or_default opts \<Longrightarrow>
     getSuggestions nt error opts
       = Inr (take (nat (maxResults_or_default opts)) (gathered nt error opts))"
  by (simp add: getSuggestions_def array_slice_0)

text \<open>
  C9, as the code has it. For a requested maximum \<open>m\<close> of at least 1 the result
  is the first \<open>m\<close> of the gathered suggestions: never more than \<open>m\<close>, and
  exactly \<open>m\<close> when the sources returned at least that many (5 for \<open>m = 5\<close> and
  sources that returned 10 each). A requested maximum of 0, like none at all,
  stands for 10.
\<close>

theorem cap_respected:
  "(maxResults opts = Some m \<and> 1 \<le> m \<longrightarrow>
      getSuggestions nt error opts = Inr (take (nat m) (gathered nt error opts))
      \<and> (\<exists>rs. getSuggestions nt error opts = Inr rs
            \<and> length rs = min (nat m) (length (gathered nt error opts))))
   \<and> (maxResults opts = Some 5 \<and> sources opts = Some [stackoverflow, github, mdn]
      \<and> searchStackOverflow nt (extractSearchQuery error) 5 = Inr s \<and> length s = 10
      \<and> searchGitHubIssues nt (extractSearchQuery error) 5 = Inr g \<and> length g = 10 \<longrightarrow>
      getSuggestions nt error opts = Inr (take 5 s) \<and> length (take 5 s) = 5)
   \<and> (maxResults opts = None \<or> maxResults opts = Some 0 \<longrightarrow>
      getSuggestions nt error opts = Inr (take 10 (gathered nt error opts)))"
proof (intro conjI impI)
  assume a: "maxResults opts = Some m \<and> 1 \<le> m"
  then have m: "maxResults_or_default opts = m" by (simp add: maxResults_or_default_def)
  with a show eq: "getSuggestions nt error opts = Inr (take (nat m) (gathered nt error opts))"
    using length_getSuggestions [of opts nt error] by simp
  then show "\<exists>rs. getSuggestions nt error opts = Inr rs
      \<and> length rs = min (nat m) (length (gathered nt error opts))"
    by (simp add: min.commute)
next
  assume a: "maxResults opts = Some 5 \<and> sources opts = Some [stackoverflow, github, mdn]
      \<and> searchStackOverflow nt (extractSearchQuery error) 5 = Inr s \<and> length s = 10
      \<and> searchGitHubIssues nt (extractSearchQuery error) 5 = Inr g \<and> length g = 10"
  then have m: "maxResults_or_default opts = 5" by (simp add: maxResults_or_default_def)
  obtain d where d: "searchMDN (extractSearchQuery error) 5 = (Inr d :: exn + 'a suggestion list)"
    by (simp add: searchMDN_def)
  from a m d have "gathered nt error opts = s @ g @ d"
    by (simp add: gathered_def Let_def sources_or_default_def try_source_Inr)
  moreover from m have "getSuggestions nt error opts = Inr (take 5 (gathered nt error opts))"
    using length_getSuggestions [of opts nt error] by simp
  ultimately show "getSuggestions nt error opts = Inr (take 5 s)"
    using a by simp
  from a show "length (take 5 s) = 5" by simp
next
  assume "maxResults opts = None \<or> maxResults opts = Some 0"
  then have "maxResults_or_default opts = 10"
    by (auto simp: maxResults_or_default_def)
  then show "getSuggestions nt error opts = Inr (take 10 (gathered nt error opts))"
    using length_getSuggestions [of opts nt error] by simp
qed

theorem cap_respected_witness:
  "getSuggestions
     \<lparr>so_api = (\<lambda>query n. Replies True 200 (Data (Some (replicate 10
                 \<lparr>question_id = 11, so_title = ''Why'', so_link = ''https://stackoverflow.com/q/11'',
                   body_markdown = None, so_score = (3::int), so_tags = None,
                   is_answered = True\<rparr>)))),
      gh_api = (\<lambda>query n. Replies True 200 (Data (Some (replicate 10
                 \<lparr>gh_id = 7, gh_title = ''Crash on load'',
                   html_url = ''https://github.com/o/r/issues/7'', gh_body = None,
                   gh_score = (1::int), gh_labels = None, reactions_total_count = None\<rparr>)))),
      decodeHtml = (\<lambda>s. s)\<rparr>
     \<lparr>err_message = ''boom'', err_type = ''console''\<rparr>
     \<lparr>sources = Some [stackoverflow, github, mdn], maxResults = Some 5\<rparr>
   = Inr (replicate 5 (so_suggestion (\<lambda>s. s)
       \<lparr>question_id = 11, so_title = ''Why'', so_link = ''https://stackoverflow.com/q/11'',
        body_markdown = None, so_score = 3, so_tags = None, is_answered = True\<rparr>))"
proof -
  let ?so = "\<lparr>question_id = 11, so_title = ''Why'', so_link = ''https://stackoverflow.com/q/11'',
      body_markdown = None, so_score = (3::int), so_tags = None, is_answered = True\<rparr>"
  let ?gh = "\<lparr>gh_id = 7, gh_title = ''Crash on load'',
      html_url = ''https://github.com/o/r/issues/7'', gh_body = None, gh_score = (1::int),
      gh_labels = None, reactions_total_count = None\<rparr>"
  let ?nt = "\<lparr>so_api = (\<lambda>query n. Replies True 200 (Data (Some (replicate 10 ?so)))),
      gh_api = (\<lambda>query n. Replies True 200 (Data (Some (replicate 10 ?gh)))),
      decodeHtml = (\<lambda>s. s)\<rparr>"
  let ?error = "\<lparr>err_message = ''boom'', err_type = ''console''\<rparr>"
  let ?opts = "\<lparr>sources = Some [stackoverflow, github, mdn], maxResults = Some 5\<rparr>"
  let ?s = "replicate 10 (so_suggestion (\<lambda>s. s) ?so)"
  let ?g = "replicate 10 (gh_suggestion ?gh)"
  have "maxResults ?opts = Some 5" and "sources ?opts = Some [stackoverflow, github, mdn]"
    by simp_all
  moreover have "searchStackOverflow ?nt (extractSearchQuery ?error) 5 = Inr ?s"
    by (simp add: searchStackOverflow_def items_or_empty_def)
  moreover have "searchGitHubIssues ?nt (extractSearchQuery ?error) 5 = Inr ?g"
    by (simp add: searchGitHubIssues_def items_or_empty_def)
  moreover have "length ?s = 10" and "length ?g = 10" by simp_all
  ultimately have "getSuggestions ?nt ?error ?opts = Inr (take 5 ?s)"
    using cap_respected [where nt = ?nt and error = ?error and opts = ?opts
        and s = ?s and g = ?g]
    by blast
  then show ?thesis by simp
qed

text \<open>
  A requested maximum of 0: the one suggestion that the first source returned
  comes back.
\<close>

theorem cap_zero_not_respected:
  "getSuggestions
     \<lparr>so_api = (\<lambda>query n. Replies True 200 (Data (Some
                 [\<lparr>question_id = 11, so_title = ''Why'', so_link = ''https://stackoverflow.com/q/11'',
                   body_markdown = None, so_score = (3::int), so_tags = None,
                   is_answered = True\<rparr>]))),
      gh_api = (\<lambda>query n. Rejects (TypeError ''Failed to fetch'')),
      decodeHtml = (\<lambda>s. s)\<rparr>
     \<lparr>err_message = ''boom'', err_type = ''console''\<rparr>
     \<lparr>sources = None, maxResults = Some 0\<rparr>
   = Inr [so_suggestion (\<lambda>s. s)
       \<lparr>question_id = 11, so_title = ''Why'', so_link = ''https://stackoverflow.com/q/11'',
        body_markdown = None, so_score = 3, so_tags = None, is_answered = True\<rparr>]"
  by (simp add: getSuggestions_def gathered_def Let_def sources_or_default_def
        maxResults_or_default_def try_source_def searchStackOverflow_def
        searchGitHubIssues_def items_or_empty_def array_slice_def relative_index_def)

section \<open>The search query\<close>

subsection \<open>Facts about \<open>trim\<close>\<close>

lemma trim_Nil: "trim [] = []"
  by (simp add: trim_def)

lemma last_dropWhile: "dropWhile P xs \<noteq> [] \<Longrightarrow> last (dropWhile P xs) = last xs"
  by (induction xs) (auto split: if_splits)

lemma trim_fixed:
  assumes "s \<noteq> []" and "\<not> is_space (hd s)" and "\<not> is_space (last s)"
  shows "trim s = s"
proof -
  from assms(1,2) have "dropWhile is_space s = s" by (cases s) simp_all
  moreover from assms(1,3) have "dropWhile is_space (rev s) = rev s"
    by (cases "rev s") (simp_all add: hd_rev [symmetric] del: hd_rev)
  ultimately show ?thesis by (simp add: trim_def)
qed

lemma trim_ends:
  assumes "trim s \<noteq> []"
  shows "\<not> is_space (hd (trim s)) \<and> \<not> is_space (last (trim s))"
proof -
  define u where "u = dropWhile is_space s"
  define w where "w = dropWhile is_space (rev u)"
  have t: "trim s = rev w" by (simp add: trim_def u_def w_def)
  with assms have w: "w \<noteq> []" by simp
  then have u: "u \<noteq> []" by (auto simp: w_def)
  have "\<not> is_space (hd w)" using w unfolding w_def by (rule hd_dropWhile)
  moreover have "last w = last (rev u)" using w unfolding w_def by (rule last_dropWhile)
  moreover have "last (rev u) = hd u" using u by (simp add: last_rev)
  moreover have "\<not> is_space (hd u)" using u unfolding u_def by (rule hd_dropWhile)
  ultimately show ?thesis using w by (simp add: t hd_rev last_rev)
qed

lemma trim_idem: "trim (trim s) = trim s"
proof (cases "trim s = []")
  case True
  then show ?thesis by (simp add: trim_Nil)
next
  case False
  with trim_ends [OF False] show ?thesis by (intro trim_fixed) simp_all
qed

lemma trim_space_Cons: "is_space a \<Longrightarrow> trim (a # s) = trim s"
  by (simp add: trim_def)

lemma trim_snoc_space:
  assumes "s \<noteq> []" and "\<not> is_space (hd s)" and "\<not> is_space (last s)" and "is_space a"
  shows "trim (s @ [a]) = s"
proof -
  from assms(1,2) have "dropWhile is_space (s @ [a]) = s @ [a]" by (cases s) simp_all
  moreover from assms(1,3) have "dropWhile is_space (rev s) = rev s"
    by (cases "rev s") (simp_all add: hd_rev [symmetric] del: hd_rev)
  ultimately show ?thesis using assms(4) by (simp add: trim_def)
qed

lemma word_not_space: "is_word x \<Longrightarrow> \<not> is_space x"
  by (auto simp: is_word_def is_space_def is_digit_def)

lemma space_is_space: "is_space CHR '' ''"
  by (simp add: is_space_def code_def)

lemma space_not_word: "\<not> is_word CHR '' ''"
  using space_is_space word_not_space by blast

subsection \<open>The match of the error type\<close>

lemma word_letters:
  "is_word CHR ''E''" "is_word CHR ''r''" "is_word CHR ''o''"
  by (simp_all add: is_word_def code_def)

lemma lit_Error_tail:
  "v = [] \<or> \<not> is_word (hd v) \<Longrightarrow> rmatch (lit ''Error'') v = None"
  using word_letters(1) by (cases v) (auto simp: lit_def)

lemma star_tail:
  "v = [] \<or> \<not> is_word (hd v) \<Longrightarrow> rmatch ((Word, Star) # lit ''Error'') v = None"
  using lit_Error_tail [of v] by (cases v) (auto simp: lit_def)

lemma star_rror:
  assumes "v = [] \<or> \<not> is_word (hd v)"
  shows "rmatch ((Word, Star) # lit ''Error'') (''rror'' @ v) = None"
proof -
  have 1: "rmatch ((Word, Star) # lit ''Error'') (''r'' @ v) = None"
    using star_tail [OF assms] word_letters by (simp add: lit_def)
  have 2: "rmatch ((Word, Star) # lit ''Error'') (''or'' @ v) = None"
    using 1 word_letters by (simp add: lit_def)
  have 3: "rmatch ((Word, Star) # lit ''Error'') (''ror'' @ v) = None"
    using 2 word_letters by (simp add: lit_def)
  show ?thesis using 3 word_letters by (simp add: lit_def)
qed

lemma lit_Error_prefix: "rmatch (lit ''Error'') (''Error'' @ v) = Some v"
  by (simp add: lit_def)

lemma rmatch_lit: "rmatch (lit t) s = Some r \<Longrightarrow> s = t @ r"
proof (induction t arbitrary: s)
  case Nil
  then show ?case by (simp add: lit_def)
next
  case (Cons c t)
  then show ?case by (cases s) (auto simp: lit_def split: if_splits)
qed

lemma star_word_error:
  assumes "rmatch ((Word, Star) # lit ''Error'') xs = Some r"
  shows "\<exists>E. xs = E @ r \<and> (\<forall>x \<in> set E. is_word x)
           \<and> (\<forall>v. v = [] \<or> \<not> is_word (hd v) \<longrightarrow>
                 rmatch ((Word, Star) # lit ''Error'') (E @ v) = Some v)"
  using assms
proof (induction xs)
  case Nil
  then show ?case by (simp add: lit_def)
next
  case (Cons y ys)
  have by_lit: ?case if m: "rmatch (lit ''Error'') (y # ys) = Some r"
  proof -
    from m have eq: "y # ys = ''Error'' @ r" by (rule rmatch_lit)
    have "\<forall>x \<in> set ''Error''. is_word x" using word_letters by simp
    moreover have "\<forall>v. v = [] \<or> \<not> is_word (hd v) \<longrightarrow>
        rmatch ((Word, Star) # lit ''Error'') (''Error'' @ v) = Some v"
    proof (intro allI impI)
      fix v :: string assume v: "v = [] \<or> \<not> is_word (hd v)"
      have "rmatch ((Word, Star) # lit ''Error'') (CHR ''E'' # ''rror'' @ v)
          = rmatch (lit ''Error'') (CHR ''E'' # ''rror'' @ v)"
        using star_rror [OF v] word_letters(1) by (simp del: append.simps)
      then show "rmatch ((Word, Star) # lit ''Error'') (''Error'' @ v) = Some v"
        using lit_Error_prefix [of v] by simp
    qed
    ultimately show ?thesis using eq by blast
  qed
  show ?case
  proof (cases "is_word y")
    case False
    with Cons.prems have "rmatch (lit ''Error'') (y # ys) = Some r" by simp
    then show ?thesis by (rule by_lit)
  next
    case True
    show ?thesis
    proof (cases "rmatch ((Word, Star) # lit ''Error'') ys")
      case None
      with True Cons.prems have "rmatch (lit ''Error'') (y # ys) = Some r" by simp
      then show ?thesis by (rule by_lit)
    next
      case (Some r0)
      with True Cons.prems have "r0 = r" by simp
      with Some Cons.IH obtain E where E: "ys = E @ r" "\<forall>x \<in> set E. is_word x"
        "\<forall>v. v = [] \<or> \<not> is_word (hd v) \<longrightarrow>
            rmatch ((Word, Star) # lit ''Error'') (E @ v) = Some v"
        by blast
      have "y # ys = (y # E) @ r" using E(1) by simp
      moreover have "\<forall>x \<in> set (y # E). is_word x" using True E(2) by simp
      moreover have "\<forall>v. v = [] \<or> \<not> is_word (hd v) \<longrightarrow>
          rmatch ((Word, Star) # lit ''Error'') ((y # E) @ v) = Some v"
        using True E(3) by simp
      ultimately show ?thesis by blast
    qed
  qed
qed

lemma matched_word_error:
  assumes "matched re_word_error c = Some E"
  shows "E \<noteq> [] \<and> (\<exists>r. c = E @ r) \<and> (\<forall>x \<in> set E. is_word x)
      \<and> (\<forall>v. v = [] \<or> \<not> is_word (hd v) \<longrightarrow> matched re_word_error (E @ v) = Some E)"
proof -
  from assms obtain r where r: "rmatch re_word_error c = Some r"
    and E: "E = take (length c - length r) c"
    by (auto simp: matched_def split: option.splits)
  from r obtain x xs where c: "c = x # xs" and x: "is_word x"
    and star: "rmatch ((Word, Star) # lit ''Error'') xs = Some r"
    by (cases c) (auto simp: re_word_error_def split: if_splits)
  from star_word_error [OF star] obtain E' where E': "xs = E' @ r" "\<forall>x \<in> set E'. is_word x"
    "\<forall>v. v = [] \<or> \<not> is_word (hd v) \<longrightarrow>
        rmatch ((Word, Star) # lit ''Error'') (E' @ v) = Some v"
    by blast
  have EE: "E = x # E'" using E c E'(1) by simp
  have "\<forall>v. v = [] \<or> \<not> is_word (hd v) \<longrightarrow> matched re_word_error (E @ v) = Some E"
  proof (intro allI impI)
    fix v :: string assume "v = [] \<or> \<not> is_word (hd v)"
    with E'(3) have "rmatch ((Word, Star) # lit ''Error'') (E' @ v) = Some v" by blast
    with x have "rmatch re_word_error (E @ v) = Some v"
      by (simp add: EE re_word_error_def)
    then show "matched re_word_error (E @ v) = Some E" by (simp add: matched_def)
  qed
  then show ?thesis using EE c E'(1,2) x by auto
qed

lemma errorTypeMatch_stable:
  assumes "errorTypeMatch c = Some E"
  shows "E \<noteq> [] \<and> (\<exists>r. c = E @ r) \<and> (\<forall>x \<in> set E. is_word x)
      \<and> (\<forall>v. v = [] \<or> \<not> is_word (hd v) \<longrightarrow> errorTypeMatch (E @ v) = Some E)"
proof (cases "matched re_word_error c")
  case (Some t)
  with assms have "t = E" by (simp add: errorTypeMatch_def)
  with Some matched_word_error [of c E] show ?thesis by (simp add: errorTypeMatch_def)
next
  case None
  with assms have "matched re_error c = Some E" by (simp add: errorTypeMatch_def)
  then obtain r where r: "rmatch (lit ''Error'') c = Some r"
    and E: "E = take (length c - length r) c"
    by (auto simp: matched_def re_error_def split: option.splits)
  from r have c: "c = ''Error'' @ r" by (rule rmatch_lit)
  with E have EE: "E = ''Error''" by simp
  have "\<forall>v. v = [] \<or> \<not> is_word (hd v) \<longrightarrow> errorTypeMatch (E @ v) = Some E"
  proof (intro allI impI)
    fix v :: string assume v: "v = [] \<or> \<not> is_word (hd v)"
    have "rmatch re_word_error (''Error'' @ v) = None"
      using star_rror [OF v] word_letters(1) by (simp add: re_word_error_def)
    then have "matched re_word_error (E @ v) = None" by (simp add: matched_def EE)
    moreover have "matched re_error (E @ v) = Some E"
      using lit_Error_prefix [of v] by (simp add: matched_def re_error_def EE)
    ultimately show "errorTypeMatch (E @ v) = Some E" by (simp add: errorTypeMatch_def)
  qed
  then show ?thesis using EE c word_letters by auto
qed

lemma replace_first_prefix: "replace_first E (E @ r) = r"
proof (cases "E @ r")
  case Nil
  then show ?thesis by simp
next
  case (Cons a list)
  have "take (length E) (E @ r) = E" and "drop (length E) (E @ r) = r" by simp_all
  then have "replace_first E (a # list) = r"
    unfolding Cons by simp
  with Cons show ?thesis by simp
qed

lemma promote_stable:
  assumes "trim c = c"
  shows "promote (trim (promote c)) = promote c"
proof (cases "errorTypeMatch c")
  case None
  then show ?thesis using assms by (simp add: promote_def)
next
  case (Some E)
  from errorTypeMatch_stable [OF Some] obtain r where E: "E \<noteq> []" "c = E @ r"
    "\<forall>x \<in> set E. is_word x"
    "\<forall>v. v = [] \<or> \<not> is_word (hd v) \<longrightarrow> errorTypeMatch (E @ v) = Some E"
    by blast
  define r' where "r' = trim r"
  have p: "promote c = E @ '' '' @ r'"
    using Some E(2) by (simp add: promote_def replace_first_prefix r'_def)
  have hdE: "\<not> is_space (hd E)" and lastE: "\<not> is_space (last E)"
    using E(1,3) word_not_space by (simp_all add: hd_in_set)
  show ?thesis
  proof (cases "r' = []")
    case True
    have "trim (E @ '' '') = E"
      using trim_snoc_space [OF E(1) hdE lastE space_is_space] by simp
    with True p have t: "trim (promote c) = E" by simp
    from E(4) have "errorTypeMatch E = Some E" by (metis append_Nil2)
    then have "promote E = E @ '' '' @ trim []"
      using replace_first_prefix [of E "[]"] by (simp add: promote_def)
    with t p True show ?thesis by (simp add: trim_Nil)
  next
    case False
    then have ends: "\<not> is_space (last r')" using trim_ends [of r] by (simp add: r'_def)
    have "trim (E @ '' '' @ r') = E @ '' '' @ r'"
    proof (rule trim_fixed)
      show "E @ '' '' @ r' \<noteq> []" using E(1) by simp
      show "\<not> is_space (hd (E @ '' '' @ r'))" using E(1) hdE by simp
      show "\<not> is_space (last (E @ '' '' @ r'))" using False ends by simp
    qed
    with p have t: "trim (promote c) = E @ '' '' @ r'" by simp
    have "errorTypeMatch (E @ '' '' @ r') = Some E"
      using E(4) space_not_word by simp
    moreover have "replace_first E (E @ '' '' @ r') = '' '' @ r'"
      by (rule replace_first_prefix)
    moreover have "trim ('' '' @ r') = r'"
      using trim_space_Cons [OF space_is_space, of r'] trim_idem [of r] by (simp add: r'_def)
    ultimately have "promote (E @ '' '' @ r') = E @ '' '' @ r'"
      by (simp add: promote_def)
    with t p show ?thesis by simp
  qed
qed

lemma promote_not_empty: "c \<noteq> [] \<Longrightarrow> promote c \<noteq> []"
  by (simp add: promote_def split: option.split)

lemmas re_simps = re_location_def re_parens_def re_url_def re_digits_def re_quotes_def
  re_word_error_def re_error_def

lemmas query_simps = extractSearchQuery_def clean_def strip_def promote_def limit_def
  errorTypeMatch_def matched_def trim_def Let_def

lemma idempotent_when_stable:
  assumes "clean (err_message error) \<noteq> []"
    and "length (promote (clean (err_message error))) \<le> 100"
    and "strip (extractSearchQuery error) = extractSearchQuery error"
  shows "extractSearchQuery (error\<lparr>err_message := extractSearchQuery error\<rparr>)
           = extractSearchQuery error"
proof -
  define c where "c = clean (err_message error)"
  define q where "q = promote c"
  have tc: "trim c = c" by (simp add: c_def clean_def trim_idem)
  have q_ne: "q \<noteq> []" using assms(1) by (simp add: q_def c_def promote_not_empty)
  have lim: "limit q = q" using assms(2) by (simp add: limit_def q_def c_def)
  have first: "extractSearchQuery error = q"
    using q_ne lim by (simp add: extractSearchQuery_def q_def c_def)
  have "clean q = trim q" using assms(3) by (simp add: clean_def first)
  then have "promote (clean q) = q"
    using promote_stable [OF tc] by (simp add: q_def)
  then have "limit (promote (clean q)) = q" using lim by simp
  then have "extractSearchQuery (error\<lparr>err_message := q\<rparr>) = q"
    using q_ne by (simp add: extractSearchQuery_def)
  then show ?thesis by (simp add: first)
qed

lemma kind_is_fixed:
  "k \<in> set kinds \<Longrightarrow> limit (promote (clean k)) = k"
  by (auto simp: kinds_def clean_def strip_def promote_def limit_def errorTypeMatch_def
        matched_def trim_def re_simps cls_simps)

lemma idempotent_on_fallback:
  assumes "clean (err_message error) = []" and "err_type error \<in> set kinds"
  shows "extractSearchQuery (error\<lparr>err_message := extractSearchQuery error\<rparr>)
           = extractSearchQuery error"
proof -
  have "promote [] = []"
    by (simp add: promote_def errorTypeMatch_def matched_def re_simps lit_def)
  with assms(1) have first: "extractSearchQuery error = err_type error"
    by (simp add: extractSearchQuery_def limit_def)
  have "limit (promote (clean (err_type error))) = err_type error"
    using assms(2) by (rule kind_is_fixed)
  then have "extractSearchQuery (error\<lparr>err_message := err_type error\<rparr>) = err_type error"
    by (simp add: extractSearchQuery_def Let_def)
  with first show ?thesis by simp
qed

subsection \<open>Texts that the replacements leave alone\<close>

lemma rmatch_needs:
  "rmatch p s = Some r \<Longrightarrow> (c, One) \<in> set p \<or> (c, Plus) \<in> set p \<Longrightarrow>
     \<exists>x \<in> set s. cls_match c x"
proof (induction p s arbitrary: r rule: rmatch.induct)
  case (1 s)
  then show ?case by simp
next
  case (2 c' ps)
  then show ?case by simp
next
  case (3 c' ps x xs)
  then show ?case by (auto split: if_splits)
next
  case (4 c' ps)
  then show ?case by auto
next
  case (5 c' ps x xs)
  then show ?case by (auto split: if_splits option.splits)
next
  case (6 c' ps)
  then show ?case by auto
next
  case (7 c' ps x xs)
  then show ?case by (auto split: if_splits option.splits)
next
  case (8 c' ps)
  then show ?case by simp
next
  case (9 c' ps x xs)
  then show ?case by (auto split: if_splits)
qed

lemma replace_all_none:
  assumes "(c, One) \<in> set p \<or> (c, Plus) \<in> set p" and "\<forall>x \<in> set s. \<not> cls_match c x"
  shows "replace_all p s = s"
  using assms(2)
proof (induction s)
  case Nil
  then show ?case by simp
next
  case (Cons x xs)
  have "rmatch p (x # xs) = None"
  proof (rule ccontr)
    assume "rmatch p (x # xs) \<noteq> None"
    then obtain r where "rmatch p (x # xs) = Some r" by blast
    from rmatch_needs [OF this assms(1)] Cons.prems show False by blast
  qed
  with Cons show ?case by simp
qed

lemma strip_plain: "plain s \<Longrightarrow> strip s = s"
proof -
  assume p: "plain s"
  have 1: "replace_all re_location s = s"
    by (rule replace_all_none [where c = Digit])
       (use p in \<open>auto simp: re_location_def plain_def\<close>)
  have 2: "replace_all re_parens s = s"
    by (rule replace_all_none [where c = "Lit CHR ''(''"])
       (use p in \<open>auto simp: re_parens_def lit_def plain_def\<close>)
  have 3: "replace_all re_url s = s"
    by (rule replace_all_none [where c = "Lit CHR ''/''"])
       (use p in \<open>auto simp: re_url_def lit_def plain_def\<close>)
  have 4: "replace_all re_digits s = s"
    by (rule replace_all_none [where c = Digit])
       (use p in \<open>auto simp: re_digits_def plain_def\<close>)
  have 5: "replace_all re_quotes s = s"
    by (rule replace_all_none [where c = "OneOf [CHR 0x27, CHR 0x22]"])
       (use p in \<open>auto simp: re_quotes_def plain_def\<close>)
  show ?thesis by (simp add: strip_def 1 2 3 4 5)
qed

lemma set_trim: "set (trim s) \<subseteq> set s"
  by (auto simp: trim_def dest!: set_dropWhileD)

lemma length_trim: "length (trim s) \<le> length s"
proof -
  have "length (dropWhile is_space (rev (dropWhile is_space s)))
      \<le> length (rev (dropWhile is_space s))"
    by (rule length_dropWhile_le)
  also have "\<dots> \<le> length s" by (simp add: length_dropWhile_le)
  finally show ?thesis by (simp add: trim_def)
qed

lemma plain_trim: "plain s \<Longrightarrow> plain (trim s)"
  using set_trim [of s] by (auto simp: plain_def)

lemma promote_shape:
  "promote c = c \<or> (\<exists>E r. c = E @ r \<and> promote c = E @ '' '' @ trim r)"
proof (cases "errorTypeMatch c")
  case None
  then show ?thesis by (simp add: promote_def)
next
  case (Some E)
  from errorTypeMatch_stable [OF Some] obtain r where "c = E @ r" by blast
  with Some have "promote c = E @ '' '' @ trim r"
    by (simp add: promote_def replace_first_prefix)
  with \<open>c = E @ r\<close> show ?thesis by blast
qed

lemma plain_promote: "plain c \<Longrightarrow> plain (promote c)"
proof -
  assume p: "plain c"
  from promote_shape [of c] show ?thesis
  proof
    assume "promote c = c"
    with p show ?thesis by simp
  next
    assume "\<exists>E r. c = E @ r \<and> promote c = E @ '' '' @ trim r"
    then obtain E r where c: "c = E @ r" and pc: "promote c = E @ '' '' @ trim r" by blast
    from p c have "plain E" and "plain r" by (auto simp: plain_def)
    then have "plain (trim r)" by (simp add: plain_trim)
    moreover have "plain '' ''" by (simp add: plain_def is_digit_def code_def)
    ultimately show ?thesis using \<open>plain E\<close> by (auto simp: pc plain_def)
  qed
qed

lemma length_promote: "length (promote c) \<le> Suc (length c)"
proof -
  from promote_shape [of c] show ?thesis
  proof
    assume "promote c = c"
    then show ?thesis by simp
  next
    assume "\<exists>E r. c = E @ r \<and> promote c = E @ '' '' @ trim r"
    then obtain E r where c: "c = E @ r" and pc: "promote c = E @ '' '' @ trim r" by blast
    have "length (promote c) = Suc (length E + length (trim r))" by (simp add: pc)
    moreover have "length c = length E + length r" by (simp add: c)
    ultimately show ?thesis using length_trim [of r] by simp
  qed
qed

lemma plain_first_result:
  assumes "plain m" and "length m < 100"
  shows "clean m = trim m" and "length (promote (clean m)) \<le> 100"
    and "plain (promote (clean m))"
proof -
  show c: "clean m = trim m" using assms(1) by (simp add: clean_def strip_plain)
  have "length (promote (trim m)) \<le> Suc (length (trim m))" by (rule length_promote)
  also have "\<dots> \<le> Suc (length m)" by (simp add: length_trim)
  finally show "length (promote (clean m)) \<le> 100" using assms(2) by (simp add: c)
  show "plain (promote (clean m))"
    using assms(1) by (simp add: c plain_trim plain_promote)
qed

lemma idempotent_on_plain:
  assumes "plain (err_message error)" and "length (err_message error) < 100"
    and "trim (err_message error) \<noteq> [] \<or> err_type error \<in> set kinds"
  shows "extractSearchQuery (error\<lparr>err_message := extractSearchQuery error\<rparr>)
           = extractSearchQuery error"
proof (cases "clean (err_message error) = []")
  case True
  with assms(3) plain_first_result(1) [OF assms(1,2)] have "err_type error \<in> set kinds"
    by simp
  with True show ?thesis by (rule idempotent_on_fallback)
next
  case False
  let ?q = "promote (clean (err_message error))"
  note facts = plain_first_result [OF assms(1,2)]
  have "limit ?q = ?q" using facts(2) by (simp add: limit_def)
  moreover have "?q \<noteq> []" using False by (rule promote_not_empty)
  ultimately have q: "extractSearchQuery error = ?q"
    by (simp add: extractSearchQuery_def Let_def)
  have "strip ?q = ?q" using facts(3) by (rule strip_plain)
  then have "strip (extractSearchQuery error) = extractSearchQuery error" by (simp only: q)
  with False facts(2) show ?thesis by (rule idempotent_when_stable)
qed

text \<open>
  C3, as the code has it. Let \<open>q\<close> be the query extracted from a message.
  Extracting from \<open>q\<close> gives \<open>q\<close> again in these cases. The cleaned message
  is not empty (so \<open>q\<close> is not the fallback), \<open>q\<close> has not been cut by the limit
  of 100 characters and the five replacements leave \<open>q\<close> as it is. Or the cleaned
  message is empty and the signal's type, which \<open>q\<close> then is, is one of the
  declared kinds. In particular: the message has fewer than 100 characters, none
  of them a digit, a quote, an opening parenthesis or a slash, and it is not blank
  or the type is one of the declared kinds.
\<close>

theorem extractSearchQuery_idempotent_when_stable:
  "(clean (err_message error) \<noteq> []
      \<and> length (promote (clean (err_message error))) \<le> 100
      \<and> strip (extractSearchQuery error) = extractSearchQuery error \<longrightarrow>
    extractSearchQuery (error\<lparr>err_message := extractSearchQuery error\<rparr>)
      = extractSearchQuery error)
   \<and> (clean (err_message error) = [] \<and> err_type error \<in> set kinds \<longrightarrow>
    extractSearchQuery (error\<lparr>err_message := extractSearchQuery error\<rparr>)
      = extractSearchQuery error)
   \<and> (plain (err_message error) \<and> length (err_message error) < 100
      \<and> (trim (err_message error) \<noteq> [] \<or> err_type error \<in> set kinds) \<longrightarrow>
    extractSearchQuery (error\<lparr>err_message := extractSearchQuery error\<rparr>)
      = extractSearchQuery error)"
  using idempotent_when_stable [of error] idempotent_on_fallback [of error]
    idempotent_on_plain [of error]
  by blast

theorem extractSearchQuery_idempotent_witness:
  "extractSearchQuery
     \<lparr>err_message = ''TypeError : Cannot read properties of undefined'',
      err_type = ''runtime''\<rparr>
   = ''TypeError : Cannot read properties of undefined''"
proof -
  let ?m = "''TypeError: Cannot read properties of undefined (reading 'foo') at app.js:42:10''"
  let ?error = "\<lparr>err_message = ?m, err_type = ''runtime''\<rparr>"
  let ?q = "''TypeError : Cannot read properties of undefined''"
  have c: "clean ?m = ''TypeError: Cannot read properties of undefined''"
    by (simp add: query_simps re_simps cls_simps)
  have p: "promote ''TypeError: Cannot read properties of undefined'' = ?q"
    by (simp add: query_simps re_simps cls_simps)
  have q: "extractSearchQuery ?error = ?q"
    by (simp add: extractSearchQuery_def c p limit_def)
  have 1: "clean (err_message ?error) \<noteq> []" by (simp add: c)
  have 2: "length (promote (clean (err_message ?error))) \<le> 100" by (simp add: c p)
  have "strip ?q = ?q" by (simp add: query_simps re_simps cls_simps)
  then have 3: "strip (extractSearchQuery ?error) = extractSearchQuery ?error"
    by (simp only: q)
  from extractSearchQuery_idempotent_when_stable [of ?error] 1 2 3
  have "extractSearchQuery (?error\<lparr>err_message := extractSearchQuery ?error\<rparr>)
      = extractSearchQuery ?error"
    by blast
  then show ?thesis by (simp add: q)
qed

text \<open>
  A message from which the replacements themselves build a URL: the digit goes
  after the URLs have been removed. The first extraction gives \<open>http://x\<close>; the
  second removes it as a URL and falls back to the signal's type.
\<close>

theorem extractSearchQuery_not_idempotent:
  "extractSearchQuery \<lparr>err_message = ''htt1p://x'', err_type = ''console''\<rparr> = ''http://x''
   \<and> extractSearchQuery
        \<lparr>err_message =
           extractSearchQuery \<lparr>err_message = ''htt1p://x'', err_type = ''console''\<rparr>,
         err_type = ''console''\<rparr> = ''console''"
proof -
  have 1: "extractSearchQuery \<lparr>err_message = ''htt1p://x'', err_type = ''console''\<rparr>
      = ''http://x''"
    by (simp add: query_simps re_simps cls_simps)
  have 2: "extractSearchQuery \<lparr>err_message = ''http://x'', err_type = ''console''\<rparr>
      = ''console''"
    by (simp add: query_simps re_simps cls_simps)
  show ?thesis by (simp only: 1 2)
qed

text \<open>
  The limit can break it too: a message of 105 word characters that ends in
  \<open>Error\<close> is cut to its first 100 characters, and these start with another
  error type.
\<close>

lemma limit_not_idempotent:
  "extractSearchQuery
     \<lparr>err_message = ''xError'' @ replicate 94 CHR ''y'' @ ''Error'', err_type = ''runtime''\<rparr>
     = ''xError'' @ replicate 94 CHR ''y''
   \<and> extractSearchQuery
       \<lparr>err_message = ''xError'' @ replicate 94 CHR ''y'', err_type = ''runtime''\<rparr>
     = ''xError '' @ replicate 93 CHR ''y''"
  by code_simp

end
